theory Spec2Isabelle
  imports Main "HOL-Library.Word"
begin

section \<open>Machine integers and failures\<close>

text \<open>
  \<^verbatim>\<open>std::uint64_t\<close>, \<^verbatim>\<open>std::uint32_t\<close> and \<^verbatim>\<open>std::uint8_t\<close> are words: their arithmetic
  wraps around. Sizes of vectors and byte counts (\<^verbatim>\<open>size_t\<close>, \<^verbatim>\<open>unsigned long\<close>) are
  natural numbers: they count bytes that exist in memory.
\<close>

type_synonym u64 = "64 word"
type_synonym u32 = "32 word"
type_synonym u8 = "8 word"

text \<open>
  The exception classes thrown in \<^verbatim>\<open>audio.cpp\<close>, \<^verbatim>\<open>audio_source.cpp\<close>,
  \<^verbatim>\<open>audio_sink.cpp\<close> and \<^verbatim>\<open>time_parser.cpp\<close>. Their message strings come from
  \<^verbatim>\<open>messages.h\<close>, which is not part of the sources; the model keeps the class only.
\<close>

datatype error = ConfigError | FileError | SeekError | NoAudioError

text \<open>
  Every way in which a call does not return normally: a failed \<^verbatim>\<open>assert\<close>, an integer
  division by zero, the dereference of a null \<^verbatim>\<open>unique_ptr\<close>, a vector read beyond its
  size, or a thrown exception.
\<close>

datatype failure = AssertionFailed | DivisionByZero | NullDereference | OutOfRange | Thrown error

section \<open>AudioSource: time conversions (audio\_source.cpp)\<close>

text \<open>
  \<^verbatim>\<open>return (micros * this->SampleRate()) / 1000000;\<close>
  The sample rate is the \<^verbatim>\<open>std::uint32_t\<close> of \<^verbatim>\<open>audio_source.hpp\<close>; it is converted to
  64 bits for the multiplication, which wraps.
\<close>

definition SamplesFromMicros :: "u32 \<Rightarrow> u64 \<Rightarrow> u64" where
  "SamplesFromMicros sample_rate micros = (micros * ucast sample_rate) div 1000000"

text \<open>
  \<^verbatim>\<open>return (samples * 1000000) / this->SampleRate();\<close>
  A sample rate of zero is a division by zero.
\<close>

definition MicrosFromSamples :: "u32 \<Rightarrow> u64 \<Rightarrow> failure + u64" where
  "MicrosFromSamples sample_rate samples =
     (if sample_rate = 0 then Inl DivisionByZero
      else Inr ((samples * 1000000) div ucast sample_rate))"

section \<open>SoXAudioSource (audio\_source.cpp)\<close>

datatype DecodeState = WAITING_FOR_FRAME | DECODING | END_OF_FILE

text \<open>
  The fields of a \<^verbatim>\<open>SoXAudioSource\<close> that the code reads: the libsox context's file
  name, \<^verbatim>\<open>signal.rate\<close>, \<^verbatim>\<open>signal.channels\<close> and \<^verbatim>\<open>signal.length\<close> (counted in mono
  samples), the decoder state, and the offset (in mono samples) at which libsox will
  read next.
\<close>

record SoXAudioSource =
  filename :: string
  rate :: u32
  channels :: u8
  signal_length :: u64
  decode_state :: DecodeState
  sox_offset :: u64

definition BUFFER_SIZE :: nat where
  "BUFFER_SIZE = 16384"

definition Path :: "SoXAudioSource \<Rightarrow> string" where
  "Path s = filename s"

definition ChannelCount :: "SoXAudioSource \<Rightarrow> u8" where
  "ChannelCount s = channels s"

definition SampleRate :: "SoXAudioSource \<Rightarrow> u32" where
  "SampleRate s = rate s"

text \<open>\<^verbatim>\<open>return 4 * this->ChannelCount();\<close>\<close>

definition BytesPerSample :: "SoXAudioSource \<Rightarrow> nat" where
  "BytesPerSample s = 4 * unat (ChannelCount s)"

text \<open>\<^verbatim>\<open>return this->buffer.size() / this->BytesPerSample();\<close>\<close>

definition BufferSampleCapacity :: "SoXAudioSource \<Rightarrow> failure + nat" where
  "BufferSampleCapacity s =
     (if BytesPerSample s = 0 then Inl DivisionByZero
      else Inr (BUFFER_SIZE div BytesPerSample s))"

text \<open>
  What libsox answers when \<^verbatim>\<open>Seek\<close> calls it: whether \<^verbatim>\<open>sox_open_read\<close> returns a
  context and whether \<^verbatim>\<open>sox_seek\<close> returns \<^verbatim>\<open>SOX_SUCCESS\<close>.
\<close>

record libsox =
  open_ok :: bool
  seek_ok :: bool

text \<open>
  \<^verbatim>\<open>SoXAudioSource::Seek(position)\<close>. The parameter goes through
  \<^verbatim>\<open>SamplesFromMicros\<close> first, as the code has it. An ended file is closed and opened
  again, which puts libsox back at the start of the file.
\<close>

definition SoX_Seek :: "libsox \<Rightarrow> SoXAudioSource \<Rightarrow> u64 \<Rightarrow> failure + (u64 \<times> SoXAudioSource)" where
  "SoX_Seek sox s position =
     (let samples = SamplesFromMicros (SampleRate s) position;
          sox_samples = samples * ucast (ChannelCount s)
      in if decode_state s = END_OF_FILE \<and> \<not> open_ok sox then Inl (Thrown FileError)
         else
           let s1 = (if decode_state s = END_OF_FILE then s\<lparr>sox_offset := 0\<rparr> else s)
           in if signal_length s1 < sox_samples then Inl (Thrown SeekError)
              else if \<not> seek_ok sox then Inl (Thrown SeekError)
              else Inr (samples, s1\<lparr>sox_offset := sox_samples, decode_state := DECODING\<rparr>))"

text \<open>
  The four bytes of one 32-bit sample as they lie in the buffer that \<^verbatim>\<open>Decode\<close>
  reinterprets as \<^verbatim>\<open>sox_sample_t *\<close> (little-endian host).
\<close>

definition sample_bytes :: "32 word \<Rightarrow> u8 list" where
  "sample_bytes w = [ucast w, ucast (drop_bit 8 w), ucast (drop_bit 16 w), ucast (drop_bit 24 w)]"

text \<open>
  \<^verbatim>\<open>SoXAudioSource::Decode()\<close>. The argument \<open>pending\<close> is the mono samples libsox
  still has to deliver; \<^verbatim>\<open>sox_read\<close> writes at most \<open>sox_capacity\<close> of them to the
  front of the buffer and returns how many. \<^verbatim>\<open>read_bytes\<close> is at most four times the
  number of samples read, so the copy never reaches the stale part of the buffer.
\<close>

definition SoX_Decode ::
  "32 word list \<Rightarrow> SoXAudioSource \<Rightarrow> failure + ((DecodeState \<times> u8 list) \<times> SoXAudioSource)" where
  "SoX_Decode pending s =
     (case BufferSampleCapacity s of
        Inl f \<Rightarrow> Inl f
      | Inr cap \<Rightarrow>
          let sox_capacity = cap * unat (ChannelCount s);
              got = take sox_capacity pending;
              read = length got
          in if read = 0 then Inr ((END_OF_FILE, []), s\<lparr>decode_state := END_OF_FILE\<rparr>)
             else
               let read_bytes = (BytesPerSample s * read) div unat (ChannelCount s);
                   decoded = take read_bytes (concat (map sample_bytes got))
               in Inr ((DECODING, decoded),
                       s\<lparr>decode_state := DECODING, sox_offset := sox_offset s + of_nat read\<rparr>))"

section \<open>The ring buffer\<close>

text \<open>
  Modelled from the spec: \<^verbatim>\<open>ringbuffer.hpp\<close> is not among the sources. The spec gives a
  byte ring of \<open>2 ^ power\<close> samples of a fixed size, whose \<^verbatim>\<open>write\<close> and \<^verbatim>\<open>read\<close>
  never block and move at most the free, respectively the stored, number of samples,
  and whose \<^verbatim>\<open>flush\<close> drops all unread samples. The model is a queue of bytes.
\<close>

record RingBuffer =
  rb_power :: nat
  rb_size :: nat
  rb_data :: "u8 list"

definition ReadCapacity :: "RingBuffer \<Rightarrow> nat" where
  "ReadCapacity r = length (rb_data r) div rb_size r"

definition WriteCapacity :: "RingBuffer \<Rightarrow> nat" where
  "WriteCapacity r = 2 ^ rb_power r - ReadCapacity r"

definition Write :: "RingBuffer \<Rightarrow> u8 list \<Rightarrow> nat \<Rightarrow> nat \<times> RingBuffer" where
  "Write r bytes sample_count =
     (let written = min sample_count (WriteCapacity r)
      in (written, r\<lparr>rb_data := rb_data r @ take (written * rb_size r) bytes\<rparr>))"

definition Read :: "RingBuffer \<Rightarrow> nat \<Rightarrow> nat \<times> u8 list \<times> RingBuffer" where
  "Read r sample_count =
     (let n = min sample_count (ReadCapacity r)
      in (n, take (n * rb_size r) (rb_data r),
          r\<lparr>rb_data := drop (n * rb_size r) (rb_data r)\<rparr>))"

definition Flush :: "RingBuffer \<Rightarrow> RingBuffer" where
  "Flush r = r\<lparr>rb_data := []\<rparr>"

section \<open>SdlAudioSink (audio\_sink.cpp)\<close>

text \<open>\<^verbatim>\<open>Audio::State\<close> of \<^verbatim>\<open>audio.hpp\<close>.\<close>

datatype State = NONE | STOPPED | PLAYING | AT_END

text \<open>
  The sink's fields; \<open>device_paused\<close> is the pause flag that
  \<^verbatim>\<open>SDL_PauseAudioDevice\<close> sets on the device.
\<close>

record SdlAudioSink =
  bytes_per_sample :: nat
  ring_buf :: RingBuffer
  position_sample_count :: u64
  source_out :: bool
  state :: State
  device_paused :: bool

definition RINGBUF_POWER :: nat where
  "RINGBUF_POWER = 16"

text \<open>
  The constructor; \<open>device_ok\<close> says whether SDL names and opens the device. SDL opens
  a device paused.
\<close>

definition SdlAudioSink_new :: "bool \<Rightarrow> SoXAudioSource \<Rightarrow> failure + SdlAudioSink" where
  "SdlAudioSink_new device_ok source =
     (if \<not> device_ok then Inl (Thrown ConfigError)
      else Inr \<lparr>bytes_per_sample = BytesPerSample source,
                ring_buf = \<lparr>rb_power = RINGBUF_POWER, rb_size = BytesPerSample source, rb_data = []\<rparr>,
                position_sample_count = 0,
                source_out = False,
                state = STOPPED,
                device_paused = True\<rparr>)"

definition Start :: "SdlAudioSink \<Rightarrow> SdlAudioSink" where
  "Start k = (if state k \<noteq> STOPPED then k else k\<lparr>device_paused := False, state := PLAYING\<rparr>)"

definition Stop :: "SdlAudioSink \<Rightarrow> SdlAudioSink" where
  "Stop k = (if state k = STOPPED then k else k\<lparr>device_paused := True, state := STOPPED\<rparr>)"

text \<open>\<^verbatim>\<open>assert(this->source_out || this->state != Audio::State::AT_END);\<close>\<close>

definition SourceOut :: "SdlAudioSink \<Rightarrow> failure + SdlAudioSink" where
  "SourceOut k =
     (if source_out k \<or> state k \<noteq> AT_END then Inr (k\<lparr>source_out := True\<rparr>)
      else Inl AssertionFailed)"

definition Position :: "SdlAudioSink \<Rightarrow> u64" where
  "Position k = position_sample_count k"

definition SetPosition :: "SdlAudioSink \<Rightarrow> u64 \<Rightarrow> SdlAudioSink" where
  "SetPosition k samples =
     (let k1 = k\<lparr>position_sample_count := samples, source_out := False\<rparr>;
          k2 = (if state k1 = AT_END then Stop (k1\<lparr>state := STOPPED\<rparr>) else k1)
      in k2\<lparr>ring_buf := Flush (ring_buf k2)\<rparr>)"

text \<open>
  \<^verbatim>\<open>Transfer(start, end)\<close>: the iterators are offsets into the frame; \<open>end\<close> is the
  frame's length. The result is the advanced \<open>start\<close> and the sink.
\<close>

definition Transfer :: "SdlAudioSink \<Rightarrow> u8 list \<Rightarrow> nat \<Rightarrow> failure + (nat \<times> SdlAudioSink)" where
  "Transfer k frm start =
     (if \<not> start \<le> length frm then Inl AssertionFailed
      else if start = length frm then Inr (start, k)
      else
        let bytes = length frm - start
        in if bytes_per_sample k = 0 then Inl DivisionByZero
           else if bytes mod bytes_per_sample k \<noteq> 0 then Inl AssertionFailed
           else if \<not> 0 < bytes then Inl AssertionFailed
           else
             let samples = bytes div bytes_per_sample k;
                 count = min samples (WriteCapacity (ring_buf k))
             in if count = 0 then Inr (start, k)
                else
                  let (written_count, rb) = Write (ring_buf k) (drop start frm) count
                  in if written_count \<noteq> count then Inl AssertionFailed
                     else
                       let start' = start + written_count * bytes_per_sample k
                       in if \<not> start' \<le> length frm then Inl AssertionFailed
                          else Inr (start', k\<lparr>ring_buf := rb\<rparr>))"

text \<open>
  \<^verbatim>\<open>Callback(out, nbytes)\<close>: the result is the contents of the \<open>nbytes\<close> bytes at
  \<open>out\<close> after the call, and the sink. \<^verbatim>\<open>memset\<close> fills the buffer with zeros and the
  ring buffer's \<^verbatim>\<open>Read\<close> then overwrites its front.
\<close>

definition Callback :: "SdlAudioSink \<Rightarrow> int \<Rightarrow> failure + (u8 list \<times> SdlAudioSink)" where
  "Callback k nbytes =
     (if \<not> 0 \<le> nbytes then Inl AssertionFailed
      else
        let lnbytes = nat nbytes;
            out = replicate lnbytes (0 :: u8)
        in if state k \<noteq> PLAYING then Inr (out, k)
           else
             let avail_samples = ReadCapacity (ring_buf k)
             in if avail_samples = 0
                then Inr (out, if source_out k then k\<lparr>state := AT_END\<rparr> else k)
                else if bytes_per_sample k = 0 then Inl DivisionByZero
                else
                  let req_samples = lnbytes div bytes_per_sample k;
                      samples = min req_samples avail_samples;
                      (read_samples, data, rb) = Read (ring_buf k) samples
                  in Inr (data @ drop (length data) out,
                          k\<lparr>ring_buf := rb,
                            position_sample_count := position_sample_count k + of_nat read_samples\<rparr>))"

section \<open>Responses\<close>

text \<open>
  The response codes of \<^verbatim>\<open>io_response.hpp\<close>. A response is a code with its arguments;
  \<^verbatim>\<open>Respond(r, id)\<close> on a response sink is recorded as the triple of the sink, the
  connection id and the response.
\<close>

datatype Code = OKAY | WHAT | FAIL | OHAI | STATE | TIME | FILE | FEATURES | END

record Response =
  code :: Code
  args :: "string list"

definition AddArg :: "Response \<Rightarrow> string \<Rightarrow> Response" where
  "AddArg r a = r\<lparr>args := args r @ [a]\<rparr>"

definition Response_new :: "Code \<Rightarrow> Response" where
  "Response_new c = \<lparr>code = c, args = []\<rparr>"

text \<open>
  A \<^verbatim>\<open>const ResponseSink *\<close> is \<open>None\<close> when null and otherwise the address, which the
  code uses as the listener's identity only.
\<close>

type_synonym ResponseSink = "nat option"

type_synonym sent = "(nat \<times> nat \<times> Response) option"

text \<open>\<^verbatim>\<open>std::to_string\<close> on an unsigned number: its decimal digits.\<close>

definition digit_char :: "nat \<Rightarrow> char" where
  "digit_char d = ''0123456789'' ! d"

fun to_string :: "nat \<Rightarrow> string" where
  "to_string n =
     (if n < 10 then [digit_char n]
      else to_string (n div 10) @ [digit_char (n mod 10)])"

declare to_string.simps [simp del]

section \<open>PipeAudio and NoAudio (audio.cpp)\<close>

text \<open>
  \<open>frame_iterator\<close> is the iterator's offset from \<^verbatim>\<open>frame.begin()\<close>; \<open>last_times\<close>
  is the \<^verbatim>\<open>std::map\<close> from response sinks to the second last announced.
\<close>

record PipeAudio =
  src :: SoXAudioSource
  sink :: SdlAudioSink
  frame :: "u8 list"
  frame_iterator :: nat
  last_times :: "nat \<rightharpoonup> u64"

definition ClearFrame :: "PipeAudio \<Rightarrow> PipeAudio" where
  "ClearFrame p = p\<lparr>frame := [], frame_iterator := 0\<rparr>"

definition PipeAudio_new :: "SoXAudioSource \<Rightarrow> SdlAudioSink \<Rightarrow> PipeAudio" where
  "PipeAudio_new s k =
     ClearFrame \<lparr>src = s, sink = k, frame = [], frame_iterator = 0, last_times = Map.empty\<rparr>"

text \<open>\<^verbatim>\<open>return this->frame.end() <= this->frame_iterator;\<close>\<close>

definition FrameFinished :: "PipeAudio \<Rightarrow> bool" where
  "FrameFinished p = (length (frame p) \<le> frame_iterator p)"

definition PipeAudio_SetPlaying :: "PipeAudio \<Rightarrow> bool \<Rightarrow> PipeAudio" where
  "PipeAudio_SetPlaying p playing =
     (if playing then p\<lparr>sink := Start (sink p)\<rparr> else p\<lparr>sink := Stop (sink p)\<rparr>)"

definition PipeAudio_Position :: "PipeAudio \<Rightarrow> failure + u64" where
  "PipeAudio_Position p = MicrosFromSamples (SampleRate (src p)) (Position (sink p))"

definition PipeAudio_Seek :: "libsox \<Rightarrow> PipeAudio \<Rightarrow> u64 \<Rightarrow> failure + PipeAudio" where
  "PipeAudio_Seek sox p position =
     (let in_samples = SamplesFromMicros (SampleRate (src p)) position
      in (case SoX_Seek sox (src p) in_samples of
            Inl f \<Rightarrow> Inl f
          | Inr (out_samples, s') \<Rightarrow>
              Inr (ClearFrame (p\<lparr>src := s',
                                  sink := SetPosition (sink p) out_samples,
                                  last_times := Map.empty\<rparr>))))"

text \<open>
  \<^verbatim>\<open>CanAnnounceTime(micros, sink)\<close> for a non-null sink \<open>l\<close>: the answer and the pipe
  with its updated map. Erasing the entry before \<^verbatim>\<open>emplace\<close> is what lets the
  \<^verbatim>\<open>emplace\<close> store the new second.
\<close>

definition CanAnnounceTime :: "PipeAudio \<Rightarrow> u64 \<Rightarrow> nat \<Rightarrow> bool \<times> PipeAudio" where
  "CanAnnounceTime p micros l =
     (let secs = micros div 1000 div 1000
      in (case last_times p l of
            None \<Rightarrow> (True, p\<lparr>last_times := (last_times p)(l \<mapsto> secs)\<rparr>)
          | Some last_entry \<Rightarrow>
              (let announce = last_entry < secs
               in if announce
                  then (True, p\<lparr>last_times := ((last_times p)(l := None))(l \<mapsto> secs)\<rparr>)
                  else (False, p))))"

text \<open>
  \<^verbatim>\<open>PipeAudio::Emit(code, rs, id)\<close>: what is sent, if anything, and the pipe;
  \<open>cid\<close> is the connection id.
  \<^verbatim>\<open>0 < id ||\<close> short-circuits: \<^verbatim>\<open>CanAnnounceTime\<close> is called for id 0 only.
\<close>

definition PipeAudio_Emit ::
  "PipeAudio \<Rightarrow> Code \<Rightarrow> ResponseSink \<Rightarrow> nat \<Rightarrow> failure + (sent \<times> PipeAudio)" where
  "PipeAudio_Emit p c rs cid =
     (case rs of
        None \<Rightarrow> Inr (None, p)
      | Some l \<Rightarrow>
          (let r = Response_new c
           in (case c of
                 STATE \<Rightarrow>
                   (let playing = (state (sink p) = PLAYING)
                    in Inr (Some (l, cid, AddArg r (if playing then ''Playing'' else ''Stopped'')), p))
               | FILE \<Rightarrow> Inr (Some (l, cid, AddArg r (Path (src p))), p)
               | TIME \<Rightarrow>
                   (case PipeAudio_Position p of
                      Inl f \<Rightarrow> Inl f
                    | Inr micros \<Rightarrow>
                        (let (can, p') = (if 0 < cid then (True, p) else CanAnnounceTime p micros l)
                         in if \<not> can then Inr (None, p')
                            else Inr (Some (l, cid, AddArg r (to_string (unat micros))), p')))
               | _ \<Rightarrow> Inr (None, p))))"

text \<open>\<^verbatim>\<open>NoAudio::Emit\<close>: only a STATE request is answered.\<close>

definition NoAudio_Emit :: "Code \<Rightarrow> ResponseSink \<Rightarrow> nat \<Rightarrow> sent" where
  "NoAudio_Emit c rs cid =
     (case rs of
        None \<Rightarrow> None
      | Some l \<Rightarrow>
          if c = STATE then Some (l, cid, AddArg (Response_new STATE) ''Ejected'') else None)"

text \<open>
  \<^verbatim>\<open>DecodeIfFrameEmpty()\<close>; \<open>pending\<close> is what libsox has left to deliver, should
  \<^verbatim>\<open>Decode\<close> be called.
\<close>

definition DecodeIfFrameEmpty :: "32 word list \<Rightarrow> PipeAudio \<Rightarrow> failure + (bool \<times> PipeAudio)" where
  "DecodeIfFrameEmpty pending p =
     (if \<not> (frame p = [] \<or> \<not> FrameFinished p) then Inl AssertionFailed
      else if \<not> FrameFinished p then Inr (True, p)
      else (case SoX_Decode pending (src p) of
              Inl f \<Rightarrow> Inl f
            | Inr (result, s') \<Rightarrow>
                Inr (fst result \<noteq> END_OF_FILE,
                     p\<lparr>src := s', frame := snd result, frame_iterator := 0\<rparr>)))"

text \<open>
  \<^verbatim>\<open>TransferFrame()\<close>, with its three assertions: the frame is not empty on entry, it
  is finished after being cleared, and on exit it is empty or its iterator lies
  strictly inside it.
\<close>

definition TransferFrame :: "PipeAudio \<Rightarrow> failure + PipeAudio" where
  "TransferFrame p =
     (if frame p = [] then Inl AssertionFailed
      else (case Transfer (sink p) (frame p) (frame_iterator p) of
              Inl f \<Rightarrow> Inl f
            | Inr (it, k) \<Rightarrow>
                (let p1 = p\<lparr>sink := k, frame_iterator := it\<rparr>;
                     p2 = (if FrameFinished p1 then ClearFrame p1 else p1)
                 in if FrameFinished p1 \<and> \<not> FrameFinished p2 then Inl AssertionFailed
                    else if \<not> (frame p2 = [] \<or> frame_iterator p2 < length (frame p2))
                    then Inl AssertionFailed
                    else Inr p2)))"

text \<open>\<^verbatim>\<open>PipeAudio::Update()\<close>: the sink's state and the pipe.\<close>

definition PipeAudio_Update :: "32 word list \<Rightarrow> PipeAudio \<Rightarrow> failure + (State \<times> PipeAudio)" where
  "PipeAudio_Update pending p =
     (case DecodeIfFrameEmpty pending p of
        Inl f \<Rightarrow> Inl f
      | Inr (more_available, p1) \<Rightarrow>
          (case (if \<not> more_available then SourceOut (sink p1) else Inr (sink p1)) of
             Inl f \<Rightarrow> Inl f
           | Inr k \<Rightarrow>
               (let p2 = p1\<lparr>sink := k\<rparr>
                in (case (if \<not> FrameFinished p2 then TransferFrame p2 else Inr p2) of
                      Inl f \<Rightarrow> Inl f
                    | Inr p3 \<Rightarrow> Inr (state (sink p3), p3)))))"

text \<open>An \<^verbatim>\<open>Audio\<close> is the null object or a pipe.\<close>

datatype Audio = NoAudio | Pipe PipeAudio

definition Audio_Emit :: "Audio \<Rightarrow> Code \<Rightarrow> ResponseSink \<Rightarrow> nat \<Rightarrow> failure + (sent \<times> Audio)" where
  "Audio_Emit a c rs cid =
     (case a of
        NoAudio \<Rightarrow> Inr (NoAudio_Emit c rs cid, NoAudio)
      | Pipe p \<Rightarrow>
          (case PipeAudio_Emit p c rs cid of
             Inl f \<Rightarrow> Inl f
           | Inr (r, p') \<Rightarrow> Inr (r, Pipe p')))"

definition Audio_Update :: "32 word list \<Rightarrow> Audio \<Rightarrow> failure + (State \<times> Audio)" where
  "Audio_Update pending a =
     (case a of
        NoAudio \<Rightarrow> Inr (NONE, NoAudio)
      | Pipe p \<Rightarrow>
          (case PipeAudio_Update pending p of
             Inl f \<Rightarrow> Inl f
           | Inr (st, p') \<Rightarrow> Inr (st, Pipe p')))"

definition Audio_SetPlaying :: "Audio \<Rightarrow> bool \<Rightarrow> failure + Audio" where
  "Audio_SetPlaying a playing =
     (case a of
        NoAudio \<Rightarrow> Inl (Thrown NoAudioError)
      | Pipe p \<Rightarrow> Inr (Pipe (PipeAudio_SetPlaying p playing)))"

definition Audio_Seek :: "libsox \<Rightarrow> Audio \<Rightarrow> u64 \<Rightarrow> failure + Audio" where
  "Audio_Seek sox a position =
     (case a of
        NoAudio \<Rightarrow> Inl (Thrown NoAudioError)
      | Pipe p \<Rightarrow>
          (case PipeAudio_Seek sox p position of
             Inl f \<Rightarrow> Inl f
           | Inr p' \<Rightarrow> Inr (Pipe p')))"

definition Audio_Position :: "Audio \<Rightarrow> failure + u64" where
  "Audio_Position a =
     (case a of
        NoAudio \<Rightarrow> Inl (Thrown NoAudioError)
      | Pipe p \<Rightarrow> PipeAudio_Position p)"

section \<open>The player (player.cpp)\<close>

text \<open>\<^verbatim>\<open>enum state\<close>, in the order of the names in \<^verbatim>\<open>STATES\<close>.\<close>

datatype state = S_VOID | S_EJCT | S_STOP | S_PLAY | S_QUIT

fun STATES :: "state \<Rightarrow> string" where
  "STATES S_VOID = ''Void''"
| "STATES S_EJCT = ''Ejct''"
| "STATES S_STOP = ''Stop''"
| "STATES S_PLAY = ''Play''"
| "STATES S_QUIT = ''Quit''"

definition GEND :: state where
  "GEND = S_VOID"

text \<open>
  Modelled from the spec: the class \<^verbatim>\<open>audio\<close> of \<^verbatim>\<open>audio.h\<close>, which \<^verbatim>\<open>player.cpp\<close>
  drives through \<^verbatim>\<open>start\<close>, \<^verbatim>\<open>stop\<close>, \<^verbatim>\<open>seek_usec\<close>, \<^verbatim>\<open>halted\<close>, \<^verbatim>\<open>usec\<close> and
  \<^verbatim>\<open>decode\<close>, is not among the sources. The spec's player sets its audio playing or
  not playing, seeks it, and asks it for its position and whether it has ended; the
  model keeps a flag, a position and an end flag. What a decoding round does to the
  audio is a parameter of \<open>loop_iter\<close>.
\<close>

record audio =
  au_file :: string
  au_playing :: bool
  au_usec :: u64
  au_halted :: bool

definition audio_start :: "audio \<Rightarrow> audio" where
  "audio_start a = a\<lparr>au_playing := True\<rparr>"

definition audio_stop :: "audio \<Rightarrow> audio" where
  "audio_stop a = a\<lparr>au_playing := False\<rparr>"

definition audio_seek_usec :: "audio \<Rightarrow> u64 \<Rightarrow> audio" where
  "audio_seek_usec a t = a\<lparr>au_usec := t\<rparr>"

text \<open>
  Modelled from the spec: \<^verbatim>\<open>constants.h\<close> is not among the sources. A second has
  1 000 000 microseconds, and the spec's position broadcast comes once per whole second.
\<close>

definition USECS_IN_SEC :: u64 where
  "USECS_IN_SEC = 1000000"

definition TIME_USECS :: u64 where
  "TIME_USECS = 1000000"

text \<open>
  The calls of \<^verbatim>\<open>response(code, format, ...)\<close> are kept as a log, in order, in the
  player's state.
\<close>

datatype response_code = R_OHAI | R_TTFN | R_STAT | R_TIME

text \<open>
  The player's fields. \<open>au\<close> is the \<^verbatim>\<open>unique_ptr\<close>: \<open>None\<close> is \<^verbatim>\<open>nullptr\<close>.
\<close>

record player =
  cstate :: state
  device :: int
  au :: "audio option"
  ptime :: u64
  responses :: "(response_code \<times> string) list"

text \<open>
  The constructor sets \<open>cstate\<close>, \<open>device\<close> and \<open>au\<close>. It leaves \<open>ptime\<close> as it
  finds it, so its first value is a parameter.
\<close>

definition player_new :: "int \<Rightarrow> u64 \<Rightarrow> player" where
  "player_new dev ptime0 =
     \<lparr>cstate = S_EJCT, device = dev, au = None, ptime = ptime0, responses = []\<rparr>"

definition response :: "response_code \<Rightarrow> string \<Rightarrow> player \<Rightarrow> player" where
  "response c text p = p\<lparr>responses := responses p @ [(c, text)]\<rparr>"

text \<open>
  \<^verbatim>\<open>gate_state(s1, ...)\<close>: the loop over the variadic arguments, given as the list of
  all arguments, the closing \<^verbatim>\<open>GEND\<close> included. Every call in the source ends its
  list with \<^verbatim>\<open>GEND\<close>, so the loop never reads beyond it.
\<close>

fun gate_state_loop :: "state \<Rightarrow> state list \<Rightarrow> bool" where
  "gate_state_loop c [] = False"
| "gate_state_loop c (i # ap) =
     (if i = GEND then False
      else if c = i then True
      else gate_state_loop c ap)"

definition gate_state :: "player \<Rightarrow> state list \<Rightarrow> bool" where
  "gate_state p ap = gate_state_loop (cstate p) ap"

text \<open>\<^verbatim>\<open>set_state\<close>: sets the state and reports the change.\<close>

definition set_state :: "state \<Rightarrow> player \<Rightarrow> player" where
  "set_state s p =
     (let pstate = cstate p
      in response R_STAT (STATES pstate @ '' '' @ STATES s) (p\<lparr>cstate := s\<rparr>))"

text \<open>
  The command handlers return \<open>valid\<close> and the player. Those that dereference
  \<open>au\<close> without a check fail on a null pointer.
\<close>

definition cmd_ejct :: "player \<Rightarrow> bool \<times> player" where
  "cmd_ejct p =
     (let valid = gate_state p [S_STOP, S_PLAY, GEND]
      in if valid then (valid, (set_state S_EJCT (p\<lparr>au := None\<rparr>))\<lparr>ptime := 0\<rparr>)
         else (valid, p))"

definition cmd_play :: "player \<Rightarrow> bool \<times> player" where
  "cmd_play p =
     (let valid = (gate_state p [S_STOP, GEND] \<and> au p \<noteq> None)
      in if valid
         then (valid, set_state S_PLAY (p\<lparr>au := map_option audio_start (au p)\<rparr>))
         else (valid, p))"

definition cmd_quit :: "player \<Rightarrow> bool \<times> player" where
  "cmd_quit p = (True, set_state S_QUIT (snd (cmd_ejct p)))"

definition cmd_stop :: "player \<Rightarrow> failure + (bool \<times> player)" where
  "cmd_stop p =
     (let valid = gate_state p [S_PLAY, GEND]
      in if valid
         then (case au p of
                 None \<Rightarrow> Inl NullDereference
               | Some a \<Rightarrow> Inr (valid, p\<lparr>au := Some (audio_stop a)\<rparr>))
         else Inr (valid, p))"

text \<open>
  \<^verbatim>\<open>cmd_load\<close>: \<open>ld\<close> stands for \<^verbatim>\<open>new audio(filename, this->device)\<close>, which gives
  an audio or throws an \<^verbatim>\<open>enum error\<close> (\<open>None\<close>); the handler catches any of them.
\<close>

type_synonym loader = "string \<Rightarrow> int \<Rightarrow> audio option"

definition cmd_load :: "loader \<Rightarrow> string \<Rightarrow> player \<Rightarrow> bool \<times> player" where
  "cmd_load ld fname p =
     (case ld fname (device p) of
        Some a \<Rightarrow> (True, set_state S_STOP (p\<lparr>au := Some a\<rparr>))
      | None \<Rightarrow> (True, snd (cmd_ejct p)))"

text \<open>
  \<^verbatim>\<open>cmd_seek\<close>: \<open>extract\<close> stands for the standard library's
  \<^verbatim>\<open>is >> time >> rest\<close> on the time string.
\<close>

type_synonym extractor = "string \<Rightarrow> u64 \<times> string"

definition cmd_seek :: "extractor \<Rightarrow> string \<Rightarrow> player \<Rightarrow> failure + (bool \<times> player)" where
  "cmd_seek extract time_str p =
     (let (time0, rest) = extract time_str;
          time = (if rest = ''s'' \<or> rest = ''sec'' then time0 * USECS_IN_SEC else time0);
          valid = gate_state p [S_PLAY, S_STOP, GEND]
      in if valid
         then
           (let current_state = cstate p
            in (case cmd_stop p of
                  Inl f \<Rightarrow> Inl f
                | Inr (_, p1) \<Rightarrow>
                    (case au p1 of
                       None \<Rightarrow> Inl NullDereference
                     | Some a \<Rightarrow>
                         (let p2 = p1\<lparr>au := Some (audio_seek_usec a time)\<rparr>
                          in if current_state = S_PLAY then Inr (valid, snd (cmd_play p2))
                             else Inr (valid, p2)))))
         else Inr (valid, p))"

text \<open>
  \<^verbatim>\<open>loop_iter\<close>; \<open>dcd\<close> stands for \<^verbatim>\<open>audio::decode\<close>. The format \<^verbatim>\<open>%u\<close> prints an
  \<^verbatim>\<open>unsigned int\<close>, the low 32 bits of the time.
\<close>

definition loop_iter :: "(audio \<Rightarrow> audio) \<Rightarrow> player \<Rightarrow> failure + player" where
  "loop_iter dcd p =
     (case (if cstate p = S_PLAY
            then (case au p of
                    None \<Rightarrow> Inl NullDereference
                  | Some a \<Rightarrow>
                      if au_halted a then Inr (snd (cmd_ejct p))
                      else
                        (let time = au_usec a;
                             p1 = (if time div TIME_USECS > ptime p div TIME_USECS
                                   then response R_TIME (to_string (unat (ucast time :: u32))) p
                                   else p)
                         in Inr (p1\<lparr>ptime := time\<rparr>)))
            else Inr p) of
        Inl f \<Rightarrow> Inl f
      | Inr p' \<Rightarrow>
          if cstate p' = S_PLAY \<or> cstate p' = S_STOP
          then (case au p' of
                  None \<Rightarrow> Inl NullDereference
                | Some a \<Rightarrow> Inr (p'\<lparr>au := Some (dcd a)\<rparr>))
          else Inr p')"

text \<open>
  \<^verbatim>\<open>PLAYER_CMDS\<close>, the table in \<^verbatim>\<open>main_loop\<close>, entry for entry: both \<^verbatim>\<open>load\<close> and
  \<^verbatim>\<open>seek\<close> call \<^verbatim>\<open>cmd_load(words[1])\<close>.
\<close>

type_synonym command = "string list \<Rightarrow> player \<Rightarrow> failure + (bool \<times> player)"

definition PLAYER_CMDS :: "loader \<Rightarrow> (string \<times> command) list" where
  "PLAYER_CMDS ld =
     [(''play'', \<lambda>words p. Inr (cmd_play p)),
      (''stop'', \<lambda>words p. cmd_stop p),
      (''ejct'', \<lambda>words p. Inr (cmd_ejct p)),
      (''quit'', \<lambda>words p. Inr (cmd_quit p)),
      (''load'', \<lambda>words p. if length words \<le> 1 then Inl OutOfRange
                            else Inr (cmd_load ld (words ! 1) p)),
      (''seek'', \<lambda>words p. if length words \<le> 1 then Inl OutOfRange
                            else Inr (cmd_load ld (words ! 1) p))]"

text \<open>
  Modelled from the spec: \<^verbatim>\<open>check_commands\<close> of \<^verbatim>\<open>cuppa/cmd.h\<close> is not among the
  sources. A command line is a vector of words; its first word selects the entry of the
  table, whose handler is called with the words; a line that selects none is refused.
\<close>

definition check_command :: "loader \<Rightarrow> string list \<Rightarrow> player \<Rightarrow> failure + (bool \<times> player)" where
  "check_command ld words p =
     (case words of
        [] \<Rightarrow> Inr (False, p)
      | verb # _ \<Rightarrow>
          (case map_of (PLAYER_CMDS ld) verb of
             None \<Rightarrow> Inr (False, p)
           | Some handler \<Rightarrow> handler words p))"

text \<open>
  Modelled from the spec: how \<^verbatim>\<open>check_commands\<close> answers the value a handler returns
  is not among the sources. The spec acknowledges a command that succeeded with OK and
  has a rejection produce a WHAT (user error) response.
\<close>

datatype ack = ACK_OK | ACK_WHAT

definition acknowledge :: "bool \<Rightarrow> ack" where
  "acknowledge valid = (if valid then ACK_OK else ACK_WHAT)"

definition command_ack :: "loader \<Rightarrow> string list \<Rightarrow> player \<Rightarrow> failure + (ack \<times> player)" where
  "command_ack ld words p =
     (case check_command ld words p of
        Inl f \<Rightarrow> Inl f
      | Inr (valid, p') \<Rightarrow> Inr (acknowledge valid, p'))"

text \<open>
  The invariant of the player: in the states \<^verbatim>\<open>S_STOP\<close> and \<^verbatim>\<open>S_PLAY\<close> there is an
  audio.
\<close>

definition audio_loaded :: "player \<Rightarrow> bool" where
  "audio_loaded p = (cstate p = S_STOP \<or> cstate p = S_PLAY \<longrightarrow> au p \<noteq> None)"

section \<open>Example inputs\<close>

text \<open>
  The file of the spec's scenario: ten seconds of stereo at 44 100 Hz, so 882 000 mono
  samples, and the sink its constructor builds for it (eight bytes per sample).
\<close>

definition a_wav :: SoXAudioSource where
  "a_wav = \<lparr>filename = ''a.wav'', rate = 44100, channels = 2, signal_length = 882000,
            decode_state = DECODING, sox_offset = 0\<rparr>"

definition a_wav_sink :: SdlAudioSink where
  "a_wav_sink = \<lparr>bytes_per_sample = 8,
                  ring_buf = \<lparr>rb_power = 16, rb_size = 8, rb_data = []\<rparr>,
                  position_sample_count = 0, source_out = False, state = STOPPED,
                  device_paused = True\<rparr>"

definition a_wav_pipe :: PipeAudio where
  "a_wav_pipe = \<lparr>src = a_wav, sink = a_wav_sink, frame = [], frame_iterator = 0,
                 last_times = Map.empty\<rparr>"

text \<open>The same pipe with a ring buffer that holds a single sample.\<close>

definition tiny_ring_pipe :: PipeAudio where
  "tiny_ring_pipe =
     a_wav_pipe\<lparr>sink := a_wav_sink\<lparr>ring_buf := \<lparr>rb_power = 0, rb_size = 8, rb_data = []\<rparr>\<rparr>\<rparr>"

section \<open>Notions used in the statements\<close>

text \<open>
  The in-flight frame is empty, or its iterator lies strictly inside it and its length is
  a positive multiple of the sink's sample size.
\<close>

definition frame_ok :: "PipeAudio \<Rightarrow> bool" where
  "frame_ok p =
     (frame p = [] \<or>
      (frame_iterator p < length (frame p) \<and> 0 < length (frame p)
       \<and> bytes_per_sample (sink p) dvd length (frame p)))"

text \<open>
  What the constructors establish and every operation keeps: beyond \<open>frame_ok\<close>, the
  iterator stands at a whole sample, the sink's sample size is the source's, the source
  has a channel, and a sink at the end has seen the source run out.
\<close>

definition pipe_wf :: "PipeAudio \<Rightarrow> bool" where
  "pipe_wf p =
     (frame_ok p
      \<and> bytes_per_sample (sink p) dvd frame_iterator p
      \<and> bytes_per_sample (sink p) = BytesPerSample (src p)
      \<and> channels (src p) \<noteq> 0
      \<and> (state (sink p) = AT_END \<longrightarrow> source_out (sink p)))"

text \<open>
  A run of TIME emissions with no \<^verbatim>\<open>Seek\<close> in between. Each step gives the position
  (in samples) that the audio callback has reached by then, the listener and the
  connection id; the result lists, in order, the listener, the id and the microseconds
  of every TIME response sent. A failure ends the run.
\<close>

fun TIME_run :: "PipeAudio \<Rightarrow> (u64 \<times> nat \<times> nat) list \<Rightarrow> (nat \<times> nat \<times> u64) list" where
  "TIME_run p [] = []"
| "TIME_run p ((samples, l, cid) # es) =
     (let q = p\<lparr>sink := (sink p)\<lparr>position_sample_count := samples\<rparr>\<rparr>
      in (case PipeAudio_Position q of
            Inl f \<Rightarrow> []
          | Inr micros \<Rightarrow>
              (case PipeAudio_Emit q TIME (Some l) cid of
                 Inl f \<Rightarrow> []
               | Inr (None, q') \<Rightarrow> TIME_run q' es
               | Inr (Some r, q') \<Rightarrow> (l, cid, micros) # TIME_run q' es)))"

text \<open>The whole seconds broadcast (id 0) to listener \<open>l\<close>, in order.\<close>

definition broadcast_seconds :: "nat \<Rightarrow> (nat \<times> nat \<times> u64) list \<Rightarrow> u64 list" where
  "broadcast_seconds l sent_times =
     map (\<lambda>(l', cid, micros). micros div 1000 div 1000)
       (filter (\<lambda>(l', cid, micros). l' = l \<and> cid = 0) sent_times)"

text \<open>
  There is no recorded second, or the recorded second is strictly less than \<open>secs\<close>.
\<close>

definition newer_than :: "u64 option \<Rightarrow> u64 \<Rightarrow> bool" where
  "newer_than prev secs = (case prev of None \<Rightarrow> True | Some s \<Rightarrow> s < secs)"

section \<open>Example inputs for the player\<close>

text \<open>
  A player that has loaded \<open>a.wav\<close> and been told to play, a loader that finds no file
  and one that finds every file.
\<close>

definition some_audio :: audio where
  "some_audio = \<lparr>au_file = ''a.wav'', au_playing = True, au_usec = 0, au_halted = False\<rparr>"

definition playing_player :: player where
  "playing_player =
     \<lparr>cstate = S_PLAY, device = 0, au = Some some_audio, ptime = 0,
      responses = [(R_STAT, ''Ejct Stop''), (R_STAT, ''Stop Play'')]\<rparr>"

definition no_such_file :: loader where
  "no_such_file fname dev = None"

definition any_file :: loader where
  "any_file fname dev =
     Some \<lparr>au_file = fname, au_playing = False, au_usec = 0, au_halted = False\<rparr>"

section \<open>Properties of the time conversions\<close>

lemma unat_ucast_rate: "unat (ucast (r :: u32) :: u64) = unat r"
proof -
  have "unat r < 2 ^ 32" using unsigned_less [of r] by simp
  then have "unat r < 2 ^ 64" by simp
  then show ?thesis by (simp add: unsigned_ucast_eq take_bit_nat_eq_self)
qed

lemma unat_micros:
  assumes "unat s * 1000000 < 2 ^ 64"
  shows "unat (s * 1000000 :: u64) = unat s * 1000000"
proof -
  have "unat (s * 1000000 :: u64) = (unat s * unat (1000000 :: u64)) mod 2 ^ 64"
    by (simp add: unat_word_ariths)
  with assms show ?thesis by simp
qed

lemma unat_MicrosFromSamples:
  assumes "r \<noteq> 0" and "unat s * 1000000 < 2 ^ 64"
  shows "\<exists>m. MicrosFromSamples r s = Inr m \<and> unat m = (unat s * 1000000) div unat r"
  using assms by (simp add: MicrosFromSamples_def unat_div unat_micros unat_ucast_rate)

lemma unat_SamplesFromMicros:
  assumes "unat m * unat r < 2 ^ 64"
  shows "unat (SamplesFromMicros r m) = (unat m * unat r) div 1000000"
proof -
  have "unat (m * ucast r :: u64) = (unat m * unat r) mod 2 ^ 64"
    by (simp add: unat_word_ariths unat_ucast_rate)
  with assms have "unat (m * ucast r :: u64) = unat m * unat r" by simp
  then show ?thesis by (simp add: SamplesFromMicros_def unat_div)
qed

lemma nat_round_trip_le: "((S * M) div R * R) div M \<le> (S::nat)"
proof (cases "M = 0")
  case True
  then show ?thesis by simp
next
  case False
  have "(S * M) div R * R \<le> S * M" by simp
  then have "((S * M) div R * R) div M \<le> (S * M) div M" by (rule div_le_mono)
  with False show ?thesis by simp
qed

lemma nat_round_trip_ge:
  assumes "0 < R" and "0 < M"
  shows "(S::nat) \<le> ((S * M) div R * R) div M + ((R - 1) div M + 1)"
proof -
  define k where "k = (R - 1) div M + 1"
  have "R - 1 < k * M"
    using assms(2) unfolding k_def
    by (metis Suc_eq_plus1 dividend_less_div_times mult.commute mult_Suc)
  then have Rk: "R \<le> k * M" using assms(1) by simp
  have "S * M < ((S * M) div R + 1) * R"
    using assms(1) by (metis Suc_eq_plus1 dividend_less_div_times mult.commute mult_Suc)
  then have "S * M < (S * M) div R * R + k * M" using Rk by (simp add: algebra_simps)
  then have "(S - k) * M \<le> (S * M) div R * R" by (simp add: algebra_simps)
  then have "((S - k) * M) div M \<le> ((S * M) div R * R) div M" by (rule div_le_mono)
  with assms(2) have "S - k \<le> ((S * M) div R * R) div M" by simp
  then show ?thesis unfolding k_def by simp
qed

lemma nat_round_trip_eq:
  assumes "0 < M" and "R dvd S * M"
  shows "((S * M) div R * R) div M = (S::nat)"
  using assms by simp

section \<open>C7: the conversions there and back\<close>

text \<open>
  C7, as amended. For a non-zero sample rate and a sample count \<open>s\<close> with
  \<open>s * 1000000\<close> below \<open>2 ^ 64\<close> (the second conversion then stays in range as well),
  \<^verbatim>\<open>MicrosFromSamples\<close> returns and \<^verbatim>\<open>SamplesFromMicros\<close> of its result is at most
  \<open>s\<close>; it falls short of \<open>s\<close> by at most \<open>(rate - 1) div 1000000 + 1\<close> samples,
  which is one sample for every rate up to 1 MHz; and it equals \<open>s\<close> whenever the rate
  divides \<open>s * 1000000\<close>.
\<close>

theorem round_trip_bounds:
  assumes "sample_rate \<noteq> 0" and "unat s * 1000000 < 2 ^ 64"
  shows "\<exists>m. MicrosFromSamples sample_rate s = Inr m
           \<and> SamplesFromMicros sample_rate m \<le> s
           \<and> unat s \<le> unat (SamplesFromMicros sample_rate m) + ((unat sample_rate - 1) div 1000000 + 1)
           \<and> (unat sample_rate dvd unat s * 1000000 \<longrightarrow> SamplesFromMicros sample_rate m = s)"
proof -
  from unat_MicrosFromSamples [OF assms] obtain m where
    m: "MicrosFromSamples sample_rate s = Inr m" and
    um: "unat m = (unat s * 1000000) div unat sample_rate" by blast
  have R: "0 < unat sample_rate" using assms(1) by (simp add: unat_gt_0)
  have "unat m * unat sample_rate \<le> unat s * 1000000" unfolding um by simp
  with assms(2) have "unat m * unat sample_rate < 2 ^ 64" by simp
  then have rt: "unat (SamplesFromMicros sample_rate m)
      = ((unat s * 1000000) div unat sample_rate * unat sample_rate) div 1000000"
    unfolding um [symmetric] by (rule unat_SamplesFromMicros)
  have le: "SamplesFromMicros sample_rate m \<le> s"
    unfolding word_le_nat_alt rt by (rule nat_round_trip_le)
  have ge: "unat s \<le> unat (SamplesFromMicros sample_rate m) + ((unat sample_rate - 1) div 1000000 + 1)"
    unfolding rt using nat_round_trip_ge [OF R, of 1000000 "unat s"] by simp
  have eq: "SamplesFromMicros sample_rate m = s" if "unat sample_rate dvd unat s * 1000000"
  proof -
    have "unat (SamplesFromMicros sample_rate m) = unat s"
      unfolding rt using nat_round_trip_eq [OF _ that] by simp
    then show ?thesis by (simp add: word_unat_eq_iff)
  qed
  from m le ge eq show ?thesis by blast
qed

text \<open>At 44 100 Hz, 441 samples are exactly 10 000 microseconds and come back as 441.\<close>

theorem round_trip_bounds_witness:
  "(44100 :: u32) \<noteq> 0 \<and> unat (441 :: u64) * 1000000 < 2 ^ 64
   \<and> (\<exists>m. MicrosFromSamples 44100 441 = Inr m \<and> SamplesFromMicros 44100 m = 441)"
proof -
  have h: "(44100 :: u32) \<noteq> 0" "unat (441 :: u64) * 1000000 < 2 ^ 64" by simp_all
  from round_trip_bounds [OF h] obtain m where
    "MicrosFromSamples 44100 441 = Inr m"
    "unat (44100 :: u32) dvd unat (441 :: u64) * 1000000 \<longrightarrow> SamplesFromMicros 44100 m = 441"
    by blast
  then have "MicrosFromSamples 44100 441 = Inr m \<and> SamplesFromMicros 44100 m = 441" by simp
  with h show ?thesis by blast
qed

text \<open>
  C7 as stated fails: at 44 100 Hz one sample is 22 microseconds, rounded down, and
  22 microseconds are no whole sample. Neither product leaves the 64-bit range.
\<close>

theorem round_trip_counterexample:
  "MicrosFromSamples 44100 1 = Inr 22 \<and> SamplesFromMicros 44100 22 = 0
   \<and> SamplesFromMicros 44100 22 \<noteq> 1
   \<and> unat (1 :: u64) * 1000000 < 2 ^ 64 \<and> unat (22 :: u64) * unat (44100 :: u32) < 2 ^ 64"
  by (simp add: MicrosFromSamples_def SamplesFromMicros_def)


section \<open>C3: the audio callback\<close>

lemma a_wav_sink_new: "SdlAudioSink_new True a_wav = Inr a_wav_sink"
  by (simp add: SdlAudioSink_new_def a_wav_def a_wav_sink_def BytesPerSample_def
      ChannelCount_def RINGBUF_POWER_def)

text \<open>
  C3. For a byte count \<open>nbytes \<ge> 0\<close> the callback returns a buffer that was zeroed
  first. If the sink is not playing, the buffer is all zeros and the sink is unchanged.
  If it is playing and the ring buffer's read capacity is 0, the buffer is all zeros,
  the state becomes \<open>AT_END\<close> exactly when \<open>source_out\<close> is set, and nothing else
  changes, the position included. Otherwise \<open>n = min (nbytes div bytes_per_sample)
  (read capacity)\<close> samples are read from the ring buffer to the front of the buffer,
  the ring buffer reports that it read \<open>n\<close>, and the position grows by \<open>n\<close>.
\<close>

theorem Callback_cases:
  assumes "0 \<le> nbytes"
  shows "(state k \<noteq> PLAYING \<longrightarrow>
            Callback k nbytes = Inr (replicate (nat nbytes) 0, k))
       \<and> (state k = PLAYING \<and> ReadCapacity (ring_buf k) = 0 \<longrightarrow>
            Callback k nbytes =
              Inr (replicate (nat nbytes) 0, if source_out k then k\<lparr>state := AT_END\<rparr> else k))
       \<and> (state k = PLAYING \<and> 0 < ReadCapacity (ring_buf k) \<and> bytes_per_sample k \<noteq> 0 \<longrightarrow>
            (let n = min (nat nbytes div bytes_per_sample k) (ReadCapacity (ring_buf k));
                 data = take (n * rb_size (ring_buf k)) (rb_data (ring_buf k));
                 rest = drop (n * rb_size (ring_buf k)) (rb_data (ring_buf k))
             in Read (ring_buf k) n = (n, data, (ring_buf k)\<lparr>rb_data := rest\<rparr>)
              \<and> Callback k nbytes =
                 Inr (data @ drop (length data) (replicate (nat nbytes) 0),
                      k\<lparr>ring_buf := (ring_buf k)\<lparr>rb_data := rest\<rparr>,
                        position_sample_count := position_sample_count k + of_nat n\<rparr>)))"
proof (intro conjI impI)
  assume "state k \<noteq> PLAYING"
  with assms show "Callback k nbytes = Inr (replicate (nat nbytes) 0, k)"
    by (simp add: Callback_def)
next
  assume "state k = PLAYING \<and> ReadCapacity (ring_buf k) = 0"
  with assms show "Callback k nbytes =
      Inr (replicate (nat nbytes) 0, if source_out k then k\<lparr>state := AT_END\<rparr> else k)"
    by (simp add: Callback_def)
next
  assume a: "state k = PLAYING \<and> 0 < ReadCapacity (ring_buf k) \<and> bytes_per_sample k \<noteq> 0"
  have m: "min (min (nat nbytes div bytes_per_sample k) (ReadCapacity (ring_buf k)))
               (ReadCapacity (ring_buf k))
         = min (nat nbytes div bytes_per_sample k) (ReadCapacity (ring_buf k))"
    by simp
  show "let n = min (nat nbytes div bytes_per_sample k) (ReadCapacity (ring_buf k));
            data = take (n * rb_size (ring_buf k)) (rb_data (ring_buf k));
            rest = drop (n * rb_size (ring_buf k)) (rb_data (ring_buf k))
        in Read (ring_buf k) n = (n, data, (ring_buf k)\<lparr>rb_data := rest\<rparr>)
         \<and> Callback k nbytes =
            Inr (data @ drop (length data) (replicate (nat nbytes) 0),
                 k\<lparr>ring_buf := (ring_buf k)\<lparr>rb_data := rest\<rparr>,
                   position_sample_count := position_sample_count k + of_nat n\<rparr>)"
    using a assms unfolding Callback_def Read_def Let_def m by simp
qed

text \<open>One call for each case: a stopped sink, a playing sink that has run dry after the
  source has ended, and a playing sink with two samples stored and room for one.\<close>

theorem Callback_cases_witness:
  "Callback (a_wav_sink\<lparr>state := STOPPED\<rparr>) 4 = Inr ([0, 0, 0, 0], a_wav_sink\<lparr>state := STOPPED\<rparr>)
   \<and> Callback (a_wav_sink\<lparr>state := PLAYING, source_out := True\<rparr>) 4
       = Inr ([0, 0, 0, 0], a_wav_sink\<lparr>state := AT_END, source_out := True\<rparr>)
   \<and> Callback (a_wav_sink\<lparr>state := PLAYING,
                            ring_buf := \<lparr>rb_power = 16, rb_size = 8,
                                         rb_data = [1, 2, 3, 4, 5, 6, 7, 8, 9, 10, 11, 12, 13, 14, 15, 16]\<rparr>\<rparr>) 12
       = Inr ([1, 2, 3, 4, 5, 6, 7, 8, 0, 0, 0, 0],
              a_wav_sink\<lparr>state := PLAYING,
                          ring_buf := \<lparr>rb_power = 16, rb_size = 8,
                                       rb_data = [9, 10, 11, 12, 13, 14, 15, 16]\<rparr>,
                          position_sample_count := 1\<rparr>)"
proof -
  have z: "replicate 4 (0 :: u8) = [0, 0, 0, 0]" by (simp add: numeral_eq_Suc)
  have z12: "replicate 12 (0 :: u8) = [0, 0, 0, 0, 0, 0, 0, 0, 0, 0, 0, 0]" by (simp add: numeral_eq_Suc)
  have h: "(0::int) \<le> 4" "(0::int) \<le> 12" by simp_all
  have c1: "Callback (a_wav_sink\<lparr>state := STOPPED\<rparr>) 4 = Inr ([0, 0, 0, 0], a_wav_sink\<lparr>state := STOPPED\<rparr>)"
    using Callback_cases [OF h(1), of "a_wav_sink\<lparr>state := STOPPED\<rparr>"]
    by (simp add: z a_wav_sink_def)
  have c2: "Callback (a_wav_sink\<lparr>state := PLAYING, source_out := True\<rparr>) 4
       = Inr ([0, 0, 0, 0], a_wav_sink\<lparr>state := AT_END, source_out := True\<rparr>)"
    using Callback_cases [OF h(1), of "a_wav_sink\<lparr>state := PLAYING, source_out := True\<rparr>"]
    by (simp add: z a_wav_sink_def ReadCapacity_def)
  have c3: "Callback (a_wav_sink\<lparr>state := PLAYING,
                            ring_buf := \<lparr>rb_power = 16, rb_size = 8,
                                         rb_data = [1, 2, 3, 4, 5, 6, 7, 8, 9, 10, 11, 12, 13, 14, 15, 16]\<rparr>\<rparr>) 12
       = Inr ([1, 2, 3, 4, 5, 6, 7, 8, 0, 0, 0, 0],
              a_wav_sink\<lparr>state := PLAYING,
                          ring_buf := \<lparr>rb_power = 16, rb_size = 8,
                                       rb_data = [9, 10, 11, 12, 13, 14, 15, 16]\<rparr>,
                          position_sample_count := 1\<rparr>)"
    using Callback_cases [OF h(2), of "a_wav_sink\<lparr>state := PLAYING,
                            ring_buf := \<lparr>rb_power = 16, rb_size = 8,
                                         rb_data = [1, 2, 3, 4, 5, 6, 7, 8, 9, 10, 11, 12, 13, 14, 15, 16]\<rparr>\<rparr>"]
    by (simp add: z12 a_wav_sink_def ReadCapacity_def Let_def)
  from c1 c2 c3 show ?thesis by blast
qed


section \<open>C9: the argument of a STATE response\<close>

lemma a_wav_pipe_new: "PipeAudio_new a_wav a_wav_sink = a_wav_pipe"
  by (simp add: PipeAudio_new_def ClearFrame_def a_wav_pipe_def)

text \<open>
  C9, as amended. A STATE request to a non-null response sink is always answered, and
  leaves the audio unchanged; the argument is \<open>Ejected\<close> for the null audio, \<open>Playing\<close>
  for a pipe whose sink is playing, and \<open>Stopped\<close> for a pipe whose sink is in any other
  state, \<open>AT_END\<close> included.
\<close>

theorem Emit_STATE_argument:
  "Audio_Emit a STATE (Some l) cid =
     Inr (Some (l, cid,
                \<lparr>code = STATE,
                 args = [case a of
                           NoAudio \<Rightarrow> ''Ejected''
                         | Pipe p \<Rightarrow> if state (sink p) = PLAYING then ''Playing'' else ''Stopped'']\<rparr>),
          a)"
  by (cases a) (simp_all add: Audio_Emit_def NoAudio_Emit_def PipeAudio_Emit_def
      Response_new_def AddArg_def)

theorem Emit_STATE_argument_witness:
  "Audio_Emit (Pipe (a_wav_pipe\<lparr>sink := a_wav_sink\<lparr>state := PLAYING\<rparr>\<rparr>)) STATE (Some 1) 0 =
     Inr (Some (1, 0, \<lparr>code = STATE, args = [''Playing'']\<rparr>),
          Pipe (a_wav_pipe\<lparr>sink := a_wav_sink\<lparr>state := PLAYING\<rparr>\<rparr>))
   \<and> Audio_Emit NoAudio STATE (Some 1) 0 =
     Inr (Some (1, 0, \<lparr>code = STATE, args = [''Ejected'']\<rparr>), NoAudio)"
  using Emit_STATE_argument [of "Pipe (a_wav_pipe\<lparr>sink := a_wav_sink\<lparr>state := PLAYING\<rparr>\<rparr>)" 1 0]
    Emit_STATE_argument [of NoAudio 1 0]
  by simp

text \<open>
  The sink reaches \<open>AT_END\<close> by the code's own steps: play, an update that finds the file
  at its end, and a callback on the empty ring buffer.
\<close>

lemma at_end_reachable:
  "PipeAudio_Update [] (PipeAudio_SetPlaying a_wav_pipe True) =
     Inr (PLAYING, a_wav_pipe\<lparr>src := a_wav\<lparr>decode_state := END_OF_FILE\<rparr>,
                              sink := a_wav_sink\<lparr>state := PLAYING, device_paused := False,
                                                  source_out := True\<rparr>\<rparr>)
   \<and> Callback (a_wav_sink\<lparr>state := PLAYING, device_paused := False, source_out := True\<rparr>) 0 =
     Inr ([], a_wav_sink\<lparr>state := AT_END, device_paused := False, source_out := True\<rparr>)"
  by (simp add: PipeAudio_Update_def PipeAudio_SetPlaying_def DecodeIfFrameEmpty_def
      FrameFinished_def SoX_Decode_def BufferSampleCapacity_def BytesPerSample_def
      ChannelCount_def BUFFER_SIZE_def SourceOut_def Start_def Callback_def ReadCapacity_def
      a_wav_pipe_def a_wav_def a_wav_sink_def)

text \<open>C9 as stated fails: a pipe whose sink is at the end answers \<open>Stopped\<close>.\<close>

theorem Emit_STATE_at_end_counterexample:
  "Audio_Emit (Pipe (a_wav_pipe\<lparr>sink := a_wav_sink\<lparr>state := AT_END, source_out := True\<rparr>\<rparr>))
     STATE (Some 1) 0 =
     Inr (Some (1, 0, \<lparr>code = STATE, args = [''Stopped'']\<rparr>),
          Pipe (a_wav_pipe\<lparr>sink := a_wav_sink\<lparr>state := AT_END, source_out := True\<rparr>\<rparr>))
   \<and> ''Stopped'' \<noteq> ''AtEnd''"
  by (simp add: Audio_Emit_def PipeAudio_Emit_def Response_new_def AddArg_def)


section \<open>C2: seek, then position\<close>

text \<open>
  \<^verbatim>\<open>PipeAudio::Seek\<close> converts the microseconds to samples and passes them to
  \<^verbatim>\<open>SoXAudioSource::Seek\<close>, which converts its argument once more.
\<close>

lemma Seek_converts_twice:
  assumes "PipeAudio_Seek sox p position = Inr p'"
  shows "Position (sink p') =
           SamplesFromMicros (SampleRate (src p)) (SamplesFromMicros (SampleRate (src p)) position)"
  using assms
  by (auto simp: PipeAudio_Seek_def SoX_Seek_def SetPosition_def ClearFrame_def Position_def
      Stop_def Let_def split: sum.splits prod.splits if_splits)

text \<open>
  C2 at the spec's scenario: the file \<open>a.wav\<close> is loaded and sought to 5 000 000
  microseconds, a valid time in a file of ten seconds. The seek succeeds, libsox is put
  at mono sample 19 448, the sink's position is 9 724 samples, and the reported
  position is 220 498 microseconds.
\<close>

theorem Seek_a_wav_position:
  "PipeAudio_Seek \<lparr>open_ok = True, seek_ok = True\<rparr> (PipeAudio_new a_wav a_wav_sink) 5000000 =
     Inr (a_wav_pipe\<lparr>src := a_wav\<lparr>sox_offset := 19448\<rparr>,
                     sink := a_wav_sink\<lparr>position_sample_count := 9724\<rparr>\<rparr>)
   \<and> PipeAudio_Position (a_wav_pipe\<lparr>src := a_wav\<lparr>sox_offset := 19448\<rparr>,
                                     sink := a_wav_sink\<lparr>position_sample_count := 9724\<rparr>\<rparr>) =
     Inr 220498"
  by (simp add: PipeAudio_Seek_def PipeAudio_new_def SoX_Seek_def SamplesFromMicros_def
      SampleRate_def ChannelCount_def SetPosition_def Flush_def ClearFrame_def
      PipeAudio_Position_def MicrosFromSamples_def Position_def
      a_wav_pipe_def a_wav_def a_wav_sink_def)


section \<open>C6: TIME responses\<close>

lemma Emit_TIME_unicast:
  assumes "PipeAudio_Position p = Inr micros" and "0 < cid"
  shows "PipeAudio_Emit p TIME (Some l) cid =
           Inr (Some (l, cid, \<lparr>code = TIME, args = [to_string (unat micros)]\<rparr>), p)"
  using assms by (simp add: PipeAudio_Emit_def Response_new_def AddArg_def)

lemma Emit_TIME_broadcast:
  assumes "PipeAudio_Position p = Inr micros"
  shows "PipeAudio_Emit p TIME (Some l) 0 =
           (if newer_than (last_times p l) (micros div 1000 div 1000)
            then Inr (Some (l, 0, \<lparr>code = TIME, args = [to_string (unat micros)]\<rparr>),
                      p\<lparr>last_times := (last_times p)(l \<mapsto> micros div 1000 div 1000)\<rparr>)
            else Inr (None, p))"
  using assms
  by (simp add: PipeAudio_Emit_def CanAnnounceTime_def Response_new_def AddArg_def
      newer_than_def Let_def split: option.splits)

lemma broadcast_seconds_Nil [simp]: "broadcast_seconds l [] = []"
  by (simp add: broadcast_seconds_def)

lemma broadcast_seconds_Cons:
  "broadcast_seconds l ((l', cid, micros) # xs) =
     (if l' = l \<and> cid = 0 then micros div 1000 div 1000 # broadcast_seconds l xs
      else broadcast_seconds l xs)"
  by (simp add: broadcast_seconds_def)

lemma newer_than_trans:
  "newer_than prev s \<Longrightarrow> s < x \<Longrightarrow> newer_than prev x"
  by (auto simp: newer_than_def split: option.splits)

lemma TIME_run_increasing:
  "sorted_wrt (<) (broadcast_seconds l (TIME_run p es))
   \<and> (\<forall>x \<in> set (broadcast_seconds l (TIME_run p es)). newer_than (last_times p l) x)"
proof (induction es arbitrary: p)
  case Nil
  show ?case by simp
next
  case (Cons e es)
  obtain samples l' cid where e: "e = (samples, l', cid)" by (cases e)
  define q where "q = p\<lparr>sink := (sink p)\<lparr>position_sample_count := samples\<rparr>\<rparr>"
  have lq: "last_times q = last_times p" by (simp add: q_def)
  show ?case
  proof (cases "PipeAudio_Position q")
    case (Inl f)
    then show ?thesis by (simp add: e q_def [symmetric])
  next
    case (Inr micros)
    let ?secs = "micros div 1000 div 1000"
    show ?thesis
    proof (cases "0 < cid")
      case True
      have "TIME_run p (e # es) = (l', cid, micros) # TIME_run q es"
        using Inr True by (simp add: e q_def [symmetric] Emit_TIME_unicast)
      then have "broadcast_seconds l (TIME_run p (e # es)) = broadcast_seconds l (TIME_run q es)"
        using True by (simp add: broadcast_seconds_Cons)
      with Cons.IH [of q] lq show ?thesis by simp
    next
      case False
      then have c0: "cid = 0" by simp
      show ?thesis
      proof (cases "newer_than (last_times q l') ?secs")
        case no: False
        have "TIME_run p (e # es) = TIME_run q es"
          using Inr no by (simp add: e c0 q_def [symmetric] Emit_TIME_broadcast)
        with Cons.IH [of q] lq show ?thesis by simp
      next
        case yes: True
        define q' where "q' = q\<lparr>last_times := (last_times q)(l' \<mapsto> ?secs)\<rparr>"
        have run: "TIME_run p (e # es) = (l', 0, micros) # TIME_run q' es"
          using Inr yes by (simp add: e c0 q_def [symmetric] q'_def Emit_TIME_broadcast)
        show ?thesis
        proof (cases "l' = l")
          case same: True
          have lq': "last_times q' l = Some ?secs" by (simp add: q'_def same)
          have bs: "broadcast_seconds l (TIME_run p (e # es))
                    = ?secs # broadcast_seconds l (TIME_run q' es)"
            by (simp add: run broadcast_seconds_Cons same)
          from Cons.IH [of q'] lq'
          have srt: "sorted_wrt (<) (broadcast_seconds l (TIME_run q' es))"
            and gt: "\<forall>x \<in> set (broadcast_seconds l (TIME_run q' es)). ?secs < x"
            by (simp_all add: newer_than_def)
          have first: "newer_than (last_times p l) ?secs" using yes lq same by simp
          with gt have "\<forall>x \<in> set (broadcast_seconds l (TIME_run q' es)). newer_than (last_times p l) x"
            by (blast intro: newer_than_trans)
          with srt gt first show ?thesis by (simp add: bs)
        next
          case other: False
          have lq': "last_times q' l = last_times p l" using other by (simp add: q'_def lq)
          have "broadcast_seconds l (TIME_run p (e # es)) = broadcast_seconds l (TIME_run q' es)"
            using other by (simp add: run broadcast_seconds_Cons)
          with Cons.IH [of q'] lq' show ?thesis by simp
        qed
      qed
    qed
  qed
qed

text \<open>
  C6, as amended. When the position is \<open>micros\<close>: a unicast (id above 0) to a non-null
  sink is always sent and leaves the recorded seconds as they are; a broadcast (id 0) is
  sent exactly when the listener has no recorded second or a recorded second strictly
  below the current one, and a broadcast that is sent records the current second for the
  listener, while one that is not sent changes nothing. In every run of TIME emissions
  without a seek, the seconds broadcast to one listener increase strictly, so none is
  broadcast twice.
\<close>

theorem Emit_TIME_rate_limit:
  "(PipeAudio_Position p = Inr micros \<longrightarrow>
      (0 < cid \<longrightarrow>
         PipeAudio_Emit p TIME (Some l) cid =
           Inr (Some (l, cid, \<lparr>code = TIME, args = [to_string (unat micros)]\<rparr>), p))
    \<and> PipeAudio_Emit p TIME (Some l) 0 =
         (if newer_than (last_times p l) (micros div 1000 div 1000)
          then Inr (Some (l, 0, \<lparr>code = TIME, args = [to_string (unat micros)]\<rparr>),
                    p\<lparr>last_times := (last_times p)(l \<mapsto> micros div 1000 div 1000)\<rparr>)
          else Inr (None, p)))
   \<and> sorted_wrt (<) (broadcast_seconds l (TIME_run p es))
   \<and> distinct (broadcast_seconds l (TIME_run p es))"
proof -
  have "sorted_wrt (<) (broadcast_seconds l (TIME_run p es))"
    using TIME_run_increasing [of l p es] by blast
  moreover from this have "distinct (broadcast_seconds l (TIME_run p es))"
    by (simp add: strict_sorted_iff)
  ultimately show ?thesis
    by (simp add: Emit_TIME_unicast Emit_TIME_broadcast)
qed

lemma to_string_1000000: "to_string 1000000 = ''1000000''"
  by (simp add: to_string.simps digit_char_def)

lemma a_wav_pipe_position_1s:
  "PipeAudio_Position (a_wav_pipe\<lparr>sink := a_wav_sink\<lparr>position_sample_count := 44100\<rparr>\<rparr>) = Inr 1000000"
  by (simp add: PipeAudio_Position_def MicrosFromSamples_def SampleRate_def Position_def
      a_wav_pipe_def a_wav_def a_wav_sink_def)

lemma TIME_run_example:
  "TIME_run a_wav_pipe [(44100, 1, 0), (44200, 1, 0), (50000, 1, 2), (88200, 1, 0)] =
     [(1, 0, 1000000), (1, 2, 1133786), (1, 0, 2000000)]"
  by (simp add: PipeAudio_Emit_def CanAnnounceTime_def Response_new_def AddArg_def
      PipeAudio_Position_def MicrosFromSamples_def SampleRate_def Position_def
      a_wav_pipe_def a_wav_def a_wav_sink_def)

text \<open>
  At one second into \<open>a.wav\<close>: the broadcast to listener 1 is sent and recorded, the
  unicast on connection 7 is sent, and a run of three broadcasts and a unicast
  broadcasts the seconds 1 and 2.
\<close>

theorem Emit_TIME_rate_limit_witness:
  "PipeAudio_Position (a_wav_pipe\<lparr>sink := a_wav_sink\<lparr>position_sample_count := 44100\<rparr>\<rparr>) = Inr 1000000
   \<and> PipeAudio_Emit (a_wav_pipe\<lparr>sink := a_wav_sink\<lparr>position_sample_count := 44100\<rparr>\<rparr>) TIME (Some 1) 0 =
       Inr (Some (1, 0, \<lparr>code = TIME, args = [''1000000'']\<rparr>),
            a_wav_pipe\<lparr>sink := a_wav_sink\<lparr>position_sample_count := 44100\<rparr>,
                        last_times := [1 \<mapsto> 1]\<rparr>)
   \<and> PipeAudio_Emit (a_wav_pipe\<lparr>sink := a_wav_sink\<lparr>position_sample_count := 44100\<rparr>\<rparr>) TIME (Some 1) 7 =
       Inr (Some (1, 7, \<lparr>code = TIME, args = [''1000000'']\<rparr>),
            a_wav_pipe\<lparr>sink := a_wav_sink\<lparr>position_sample_count := 44100\<rparr>\<rparr>)
   \<and> sorted_wrt (<) [1 :: u64, 2]"
proof -
  let ?p = "a_wav_pipe\<lparr>sink := a_wav_sink\<lparr>position_sample_count := 44100\<rparr>\<rparr>"
  have new: "newer_than (last_times ?p 1) (1000000 div 1000 div 1000)"
    by (simp add: newer_than_def a_wav_pipe_def)
  have l: "last_times ?p = Map.empty" by (simp add: a_wav_pipe_def)
  have bs: "broadcast_seconds 1 (TIME_run a_wav_pipe
              [(44100, 1, 0), (44200, 1, 0), (50000, 1, 2), (88200, 1, 0)]) = [1, 2]"
    by (simp only: TIME_run_example) (simp add: broadcast_seconds_def)
  show ?thesis
    using Emit_TIME_rate_limit [of ?p 1000000 7 1
        "[(44100, 1, 0), (44200, 1, 0), (50000, 1, 2), (88200, 1, 0)]"]
      a_wav_pipe_position_1s new
    by (simp add: to_string_1000000 bs l)
qed


text \<open>
  C6 as stated fails where it says that every announce records the listener's second:
  the unicast on connection 1 is sent, and no second is recorded for the listener.
\<close>

theorem Emit_TIME_unicast_counterexample:
  "PipeAudio_Emit (a_wav_pipe\<lparr>sink := a_wav_sink\<lparr>position_sample_count := 44100\<rparr>\<rparr>) TIME (Some 1) 1 =
     Inr (Some (1, 1, \<lparr>code = TIME, args = [''1000000'']\<rparr>),
          a_wav_pipe\<lparr>sink := a_wav_sink\<lparr>position_sample_count := 44100\<rparr>\<rparr>)
   \<and> last_times (a_wav_pipe\<lparr>sink := a_wav_sink\<lparr>position_sample_count := 44100\<rparr>\<rparr>) 1 = None"
  by (simp add: Emit_TIME_unicast [OF a_wav_pipe_position_1s] to_string_1000000)
    (simp add: a_wav_pipe_def)


section \<open>C5: the in-flight frame after an update\<close>

lemma Transfer_Inr:
  assumes "Transfer k frm start = Inr (it, k')"
  shows "bytes_per_sample k' = bytes_per_sample k \<and> start \<le> it \<and> it \<le> length frm
         \<and> (start < length frm \<longrightarrow> bytes_per_sample k dvd (length frm - start))"
  using assms
  by (auto simp: Transfer_def Let_def Write_def mod_eq_0_iff_dvd split: if_splits)

lemma SourceOut_Inr:
  assumes "SourceOut k = Inr k'"
  shows "bytes_per_sample k' = bytes_per_sample k"
  using assms by (auto simp: SourceOut_def split: if_splits)

lemma DecodeIfFrameEmpty_Inr:
  assumes "DecodeIfFrameEmpty pending p = Inr (m, p1)"
  shows "sink p1 = sink p
         \<and> ((\<not> FrameFinished p \<and> p1 = p) \<or> (frame p = [] \<and> frame_iterator p1 = 0))"
  using assms
  by (auto simp: DecodeIfFrameEmpty_def split: if_splits sum.splits prod.splits)

lemma TransferFrame_Inr:
  assumes "TransferFrame p = Inr p'"
  shows "bytes_per_sample (sink p') = bytes_per_sample (sink p)
         \<and> (frame p' = [] \<or> (frame p' = frame p \<and> frame_iterator p' < length (frame p)))
         \<and> (frame_iterator p < length (frame p)
              \<longrightarrow> bytes_per_sample (sink p) dvd (length (frame p) - frame_iterator p))"
proof -
  from assms obtain it k where
    t: "Transfer (sink p) (frame p) (frame_iterator p) = Inr (it, k)"
    by (auto simp: TransferFrame_def split: if_splits sum.splits prod.splits)
  note tr = Transfer_Inr [OF t]
  from assms t show ?thesis
    using tr
    by (auto simp: TransferFrame_def Let_def FrameFinished_def ClearFrame_def split: if_splits)
qed

lemma Update_Inr:
  assumes upd: "PipeAudio_Update pending p = Inr (st, p')"
  shows "(frame p' = [] \<or> \<not> FrameFinished p') \<and> (frame_ok p \<longrightarrow> frame_ok p')"
proof -
  from upd obtain m p1 where d: "DecodeIfFrameEmpty pending p = Inr (m, p1)"
    by (auto simp: PipeAudio_Update_def split: sum.splits prod.splits)
  from upd d obtain k where
    so: "(if \<not> m then SourceOut (sink p1) else Inr (sink p1)) = Inr k"
    by (auto simp: PipeAudio_Update_def split: sum.splits prod.splits)
  define p2 where "p2 = p1\<lparr>sink := k\<rparr>"
  from upd d so have tf: "(if \<not> FrameFinished p2 then TransferFrame p2 else Inr p2) = Inr p'"
    by (auto simp: PipeAudio_Update_def p2_def Let_def split: sum.splits prod.splits if_splits)
  have bk: "bytes_per_sample k = bytes_per_sample (sink p1)"
    using so SourceOut_Inr [of "sink p1" k] by (auto split: if_splits)
  from DecodeIfFrameEmpty_Inr [OF d]
  have sk: "sink p1 = sink p"
    and dd: "(\<not> FrameFinished p \<and> p1 = p) \<or> (frame p = [] \<and> frame_iterator p1 = 0)"
    by blast+
  have b2: "bytes_per_sample (sink p2) = bytes_per_sample (sink p)"
    using bk sk by (simp add: p2_def)
  have f2: "frame p2 = frame p1" "frame_iterator p2 = frame_iterator p1"
    by (simp_all add: p2_def)
  have dv: "bytes_per_sample (sink p2) dvd length (frame p2)"
    if ok: "frame_ok p"
      and dvd: "bytes_per_sample (sink p2) dvd (length (frame p2) - frame_iterator p2)"
  proof -
    from dd show ?thesis
    proof
      assume "\<not> FrameFinished p \<and> p1 = p"
      then have "frame p \<noteq> []" "p1 = p" by (auto simp: FrameFinished_def)
      with ok show ?thesis by (simp add: frame_ok_def f2 b2)
    next
      assume "frame p = [] \<and> frame_iterator p1 = 0"
      with dvd show ?thesis by (simp add: f2)
    qed
  qed
  show ?thesis
  proof (cases "FrameFinished p2")
    case True
    with tf have e: "p' = p2" by simp
    from dd have "frame p2 = []"
    proof
      assume "\<not> FrameFinished p \<and> p1 = p"
      with True show ?thesis by (simp add: FrameFinished_def f2)
    next
      assume "frame p = [] \<and> frame_iterator p1 = 0"
      with True show ?thesis by (simp add: FrameFinished_def f2)
    qed
    then show ?thesis by (simp add: frame_ok_def e)
  next
    case False
    with tf have t: "TransferFrame p2 = Inr p'" by simp
    note tt = TransferFrame_Inr [OF t]
    from False have lt: "frame_iterator p2 < length (frame p2)" by (simp add: FrameFinished_def)
    with tt have dd2: "bytes_per_sample (sink p2) dvd (length (frame p2) - frame_iterator p2)"
      by blast
    from tt have unf: "frame p' = [] \<or> \<not> FrameFinished p'"
      by (auto simp: FrameFinished_def)
    have "frame_ok p'" if "frame_ok p"
    proof -
      from that dd2 have "bytes_per_sample (sink p2) dvd length (frame p2)" by (rule dv)
      with tt lt show ?thesis by (auto simp: frame_ok_def)
    qed
    with unf show ?thesis by blast
  qed
qed

lemma Seek_frame_ok:
  assumes "PipeAudio_Seek sox p t = Inr p'"
  shows "frame_ok p'"
  using assms
  by (auto simp: PipeAudio_Seek_def frame_ok_def ClearFrame_def Let_def split: sum.splits prod.splits)

lemma new_frame_ok: "frame_ok (PipeAudio_new s k)"
  by (simp add: PipeAudio_new_def ClearFrame_def frame_ok_def)

text \<open>
  An update returns, without a failed assertion, whenever the pipe is well formed and
  libsox has a whole number of samples (one mono sample per channel) left to deliver.
\<close>

lemma length_concat_sample_bytes: "length (concat (map sample_bytes xs)) = 4 * length xs"
  by (induction xs) (simp_all add: sample_bytes_def)

lemma SoX_Decode_returns:
  assumes ch: "channels s \<noteq> 0" and whole: "unat (channels s) dvd length pending"
  shows "\<exists>st bytes s'. SoX_Decode pending s = Inr ((st, bytes), s')
           \<and> BytesPerSample s dvd length bytes
           \<and> channels s' = channels s
           \<and> (st = END_OF_FILE \<longrightarrow> bytes = [])"
proof -
  define c where "c = unat (channels s)"
  have c0: "0 < c" using ch by (simp add: c_def unat_gt_0)
  define cap where "cap = BUFFER_SIZE div (4 * c)"
  define got where "got = take (cap * c) pending"
  have bc: "BufferSampleCapacity s = Inr cap"
    using c0 by (simp add: BufferSampleCapacity_def BytesPerSample_def ChannelCount_def cap_def c_def)
  have "length got = min (length pending) (cap * c)" by (simp add: got_def)
  then have dv: "c dvd length got" using whole by (auto simp: c_def min_def)
  then obtain j where j: "length got = c * j" by (auto simp: dvd_def)
  have rb: "(BytesPerSample s * length got) div c = 4 * length got"
    using c0 by (simp add: BytesPerSample_def ChannelCount_def c_def [symmetric])
  have len: "length (take (4 * length got) (concat (map sample_bytes got))) = 4 * length got"
    by (simp add: length_concat_sample_bytes)
  have bps: "BytesPerSample s dvd 4 * length got"
    by (simp add: BytesPerSample_def ChannelCount_def c_def [symmetric] j)
  have eq: "SoX_Decode pending s =
      (if length got = 0 then Inr ((END_OF_FILE, []), s\<lparr>decode_state := END_OF_FILE\<rparr>)
       else Inr ((DECODING, take ((BytesPerSample s * length got) div c)
                              (concat (map sample_bytes got))),
                 s\<lparr>decode_state := DECODING, sox_offset := sox_offset s + of_nat (length got)\<rparr>))"
    unfolding SoX_Decode_def bc Let_def ChannelCount_def sum.case c_def [symmetric]
      got_def [symmetric]
    by (rule refl)
  show ?thesis
  proof (cases "length got = 0")
    case True
    then show ?thesis unfolding eq by simp
  next
    case False
    then show ?thesis unfolding eq rb using len bps by simp
  qed
qed

lemma Transfer_returns:
  assumes "bytes_per_sample k \<noteq> 0" and "start \<le> length frm"
    and "bytes_per_sample k dvd (length frm - start)"
  shows "\<exists>it k'. Transfer k frm start = Inr (it, k')
           \<and> start \<le> it \<and> it \<le> length frm
           \<and> bytes_per_sample k dvd (it - start)
           \<and> bytes_per_sample k' = bytes_per_sample k
           \<and> state k' = state k \<and> source_out k' = source_out k"
proof (cases "start = length frm")
  case True
  then show ?thesis by (simp add: Transfer_def)
next
  case False
  define b where "b = bytes_per_sample k"
  define n where "n = min ((length frm - start) div b) (WriteCapacity (ring_buf k))"
  have b0: "0 < b" using assms(1) by (simp add: b_def)
  have md: "(length frm - start) mod b = 0" using assms(3) by (simp add: b_def mod_eq_0_iff_dvd)
  have "n * b \<le> (length frm - start) div b * b" by (simp add: n_def)
  also have "\<dots> \<le> length frm - start" by simp
  finally have le: "start + n * b \<le> length frm" using assms(2) by simp
  show ?thesis
  proof (cases "n = 0")
    case True
    with False assms md show ?thesis
      by (simp add: Transfer_def Let_def b_def [symmetric] n_def [symmetric])
  next
    case n: False
    have w: "Write (ring_buf k) (drop start frm) n =
               (n, (ring_buf k)\<lparr>rb_data := rb_data (ring_buf k)
                    @ take (n * rb_size (ring_buf k)) (drop start frm)\<rparr>)"
      by (simp add: Write_def n_def Let_def)
    from False assms md n le w show ?thesis
      by (simp add: Transfer_def Let_def b_def [symmetric] n_def [symmetric])
  qed
qed

lemma TransferFrame_returns:
  assumes ne: "frame_iterator p < length (frame p)"
    and b0: "bytes_per_sample (sink p) \<noteq> 0"
    and dl: "bytes_per_sample (sink p) dvd length (frame p)"
    and di: "bytes_per_sample (sink p) dvd frame_iterator p"
  shows "\<exists>p'. TransferFrame p = Inr p'
           \<and> src p' = src p
           \<and> bytes_per_sample (sink p') = bytes_per_sample (sink p)
           \<and> state (sink p') = state (sink p)
           \<and> source_out (sink p') = source_out (sink p)
           \<and> (frame p' = [] \<and> frame_iterator p' = 0
               \<or> frame p' = frame p \<and> frame_iterator p' < length (frame p)
                  \<and> bytes_per_sample (sink p) dvd frame_iterator p')"
proof -
  have f: "frame p \<noteq> []" using ne by auto
  have dd: "bytes_per_sample (sink p) dvd (length (frame p) - frame_iterator p)"
    using dl di by (rule dvd_diff_nat)
  from Transfer_returns [OF b0 _ dd] ne obtain it k' where
    t: "Transfer (sink p) (frame p) (frame_iterator p) = Inr (it, k')"
    and le: "frame_iterator p \<le> it" "it \<le> length (frame p)"
    and dit: "bytes_per_sample (sink p) dvd (it - frame_iterator p)"
    and k': "bytes_per_sample k' = bytes_per_sample (sink p)" "state k' = state (sink p)"
      "source_out k' = source_out (sink p)"
    by (metis less_imp_le_nat)
  have "it = frame_iterator p + (it - frame_iterator p)" using le by simp
  with di dit have d': "bytes_per_sample (sink p) dvd it" by (metis dvd_add)
  show ?thesis
  proof (cases "length (frame p) \<le> it")
    case True
    with f t k' show ?thesis
      by (simp add: TransferFrame_def FrameFinished_def ClearFrame_def Let_def)
  next
    case False
    with f t k' d' show ?thesis
      by (simp add: TransferFrame_def FrameFinished_def ClearFrame_def Let_def)
  qed
qed

lemma BytesPerSample_channels:
  "channels s' = channels s \<Longrightarrow> BytesPerSample s' = BytesPerSample s"
  by (simp add: BytesPerSample_def ChannelCount_def)

lemma BytesPerSample_nonzero: "channels s \<noteq> 0 \<Longrightarrow> BytesPerSample s \<noteq> 0"
  by (simp add: BytesPerSample_def ChannelCount_def unat_eq_0)

lemma Update_returns:
  assumes wf: "pipe_wf p" and whole: "unat (channels (src p)) dvd length pending"
  shows "\<exists>st p'. PipeAudio_Update pending p = Inr (st, p') \<and> pipe_wf p'"
proof -
  from wf have ok: "frame_ok p"
    and di: "bytes_per_sample (sink p) dvd frame_iterator p"
    and bs: "bytes_per_sample (sink p) = BytesPerSample (src p)"
    and ch: "channels (src p) \<noteq> 0"
    and so: "state (sink p) = AT_END \<longrightarrow> source_out (sink p)"
    unfolding pipe_wf_def by blast+
  have b0: "bytes_per_sample (sink p) \<noteq> 0" using bs ch by (simp add: BytesPerSample_nonzero)
  show ?thesis
  proof (cases "FrameFinished p")
    case False
    then have lt: "frame_iterator p < length (frame p)" by (simp add: FrameFinished_def)
    with ok have dl: "bytes_per_sample (sink p) dvd length (frame p)"
      by (auto simp: frame_ok_def)
    have d: "DecodeIfFrameEmpty pending p = Inr (True, p)"
      using False by (simp add: DecodeIfFrameEmpty_def)
    from TransferFrame_returns [OF lt b0 dl di] obtain p' where
      t: "TransferFrame p = Inr p'" and r: "src p' = src p"
      "bytes_per_sample (sink p') = bytes_per_sample (sink p)"
      "state (sink p') = state (sink p)" "source_out (sink p') = source_out (sink p)"
      "frame p' = [] \<and> frame_iterator p' = 0
       \<or> frame p' = frame p \<and> frame_iterator p' < length (frame p)
          \<and> bytes_per_sample (sink p) dvd frame_iterator p'"
      by blast
    have u: "PipeAudio_Update pending p = Inr (state (sink p'), p')"
      using d t False by (simp add: PipeAudio_Update_def)
    have "pipe_wf p'"
      using r bs ch so dl lt by (auto simp: pipe_wf_def frame_ok_def)
    with u show ?thesis by blast
  next
    case True
    with ok have e: "frame p = []" by (auto simp: frame_ok_def FrameFinished_def)
    from SoX_Decode_returns [OF ch whole] obtain st bytes s' where
      dec: "SoX_Decode pending (src p) = Inr ((st, bytes), s')"
      and db: "BytesPerSample (src p) dvd length bytes"
      and cs: "channels s' = channels (src p)"
      and eof: "st = END_OF_FILE \<longrightarrow> bytes = []"
      by blast
    define p1 where "p1 = p\<lparr>src := s', frame := bytes, frame_iterator := 0\<rparr>"
    have d: "DecodeIfFrameEmpty pending p = Inr (st \<noteq> END_OF_FILE, p1)"
      using True e dec by (simp add: DecodeIfFrameEmpty_def p1_def)
    define k where "k = (if st = END_OF_FILE then (sink p)\<lparr>source_out := True\<rparr> else sink p)"
    have sk: "(if \<not> (st \<noteq> END_OF_FILE) then SourceOut (sink p1) else Inr (sink p1)) = Inr k"
      using so by (auto simp: SourceOut_def k_def p1_def)
    have kb: "bytes_per_sample k = bytes_per_sample (sink p)" by (simp add: k_def)
    have kso: "state k = AT_END \<longrightarrow> source_out k" using so by (simp add: k_def)
    define p2 where "p2 = p1\<lparr>sink := k\<rparr>"
    have u: "PipeAudio_Update pending p =
               (case (if \<not> FrameFinished p2 then TransferFrame p2 else Inr p2) of
                  Inl f \<Rightarrow> Inl f
                | Inr p3 \<Rightarrow> Inr (state (sink p3), p3))"
      using d sk by (simp add: PipeAudio_Update_def p2_def)
    have bs': "BytesPerSample s' = BytesPerSample (src p)"
      using cs by (rule BytesPerSample_channels)
    show ?thesis
    proof (cases "bytes = []")
      case nil: True
      then have fin: "FrameFinished p2" by (simp add: FrameFinished_def p2_def p1_def)
      have "pipe_wf p2"
        using nil kb kso bs bs' cs ch by (simp add: pipe_wf_def frame_ok_def p2_def p1_def)
      with u fin show ?thesis by simp
    next
      case some: False
      then have lt: "frame_iterator p2 < length (frame p2)" by (simp add: p2_def p1_def)
      then have nf: "\<not> FrameFinished p2" by (simp add: FrameFinished_def)
      have b2: "bytes_per_sample (sink p2) \<noteq> 0" using b0 kb by (simp add: p2_def)
      have dl2: "bytes_per_sample (sink p2) dvd length (frame p2)"
        using db bs kb by (simp add: p2_def p1_def)
      have di2: "bytes_per_sample (sink p2) dvd frame_iterator p2" by (simp add: p2_def p1_def)
      from TransferFrame_returns [OF lt b2 dl2 di2] obtain p' where
        t: "TransferFrame p2 = Inr p'" and r: "src p' = src p2"
        "bytes_per_sample (sink p') = bytes_per_sample (sink p2)"
        "state (sink p') = state (sink p2)" "source_out (sink p') = source_out (sink p2)"
        "frame p' = [] \<and> frame_iterator p' = 0
         \<or> frame p' = frame p2 \<and> frame_iterator p' < length (frame p2)
            \<and> bytes_per_sample (sink p2) dvd frame_iterator p'"
        by blast
      have "pipe_wf p'"
        using r kb kso bs bs' cs ch dl2 lt
        by (auto simp: pipe_wf_def frame_ok_def p2_def p1_def)
      with u nf t show ?thesis by simp
    qed
  qed
qed

lemma new_pipe_wf:
  assumes "channels s \<noteq> 0" and "SdlAudioSink_new True s = Inr k"
  shows "pipe_wf (PipeAudio_new s k)"
  using assms
  by (auto simp: pipe_wf_def frame_ok_def PipeAudio_new_def ClearFrame_def SdlAudioSink_new_def)

lemma Seek_pipe_wf:
  assumes "pipe_wf p" and "PipeAudio_Seek sox p t = Inr p'"
  shows "pipe_wf p'"
  using assms
  by (auto simp: pipe_wf_def frame_ok_def PipeAudio_Seek_def SoX_Seek_def SetPosition_def
      Stop_def Flush_def ClearFrame_def BytesPerSample_def ChannelCount_def Let_def
      split: sum.splits prod.splits if_splits)

lemma Callback_pipe_wf:
  assumes "pipe_wf p" and "Callback (sink p) nbytes = Inr (out, k)"
  shows "pipe_wf (p\<lparr>sink := k\<rparr>)"
  using assms
  by (auto simp: pipe_wf_def frame_ok_def Callback_def Read_def Let_def
      split: if_splits prod.splits)

lemma SetPlaying_pipe_wf:
  assumes "pipe_wf p"
  shows "pipe_wf (PipeAudio_SetPlaying p playing)"
  using assms
  by (auto simp: pipe_wf_def frame_ok_def PipeAudio_SetPlaying_def Start_def Stop_def)

text \<open>
  C5. A new pipe has an empty frame and a seek leaves an empty frame. After every update
  that returns, the frame is empty or not finished: a finished frame is never kept. If
  the frame before the update was empty or unfinished with a length that is a positive
  multiple of the sample size, then so is the frame after it: empty, or the iterator
  strictly inside and the length a positive multiple of the sample size. And from every
  well-formed pipe the update does return, with a well-formed pipe, when libsox has a
  whole number of samples left.
\<close>

theorem Update_keeps_frame_unfinished:
  "frame_ok (PipeAudio_new s k)
   \<and> (PipeAudio_Seek sox p t = Inr p' \<longrightarrow> frame_ok p')
   \<and> (PipeAudio_Update pending p = Inr (st, p'') \<longrightarrow>
        (frame p'' = [] \<or> \<not> FrameFinished p'') \<and> (frame_ok p \<longrightarrow> frame_ok p''))
   \<and> (pipe_wf p \<and> unat (channels (src p)) dvd length pending \<longrightarrow>
        (\<exists>st' q. PipeAudio_Update pending p = Inr (st', q) \<and> pipe_wf q))"
proof (intro conjI impI)
  show "frame_ok (PipeAudio_new s k)" by (rule new_frame_ok)
next
  assume "PipeAudio_Seek sox p t = Inr p'"
  then show "frame_ok p'" by (rule Seek_frame_ok)
next
  assume a: "PipeAudio_Update pending p = Inr (st, p'')"
  from Update_Inr [OF a] show "frame p'' = [] \<or> \<not> FrameFinished p''" by blast
  assume "frame_ok p"
  with Update_Inr [OF a] show "frame_ok p''" by blast
next
  assume "pipe_wf p \<and> unat (channels (src p)) dvd length pending"
  then show "\<exists>st' q. PipeAudio_Update pending p = Inr (st', q) \<and> pipe_wf q"
    by (blast intro: Update_returns)
qed

lemma Update_tiny_ring:
  "PipeAudio_Update [1, 2, 3, 4] tiny_ring_pipe =
     Inr (STOPPED,
          tiny_ring_pipe\<lparr>src := a_wav\<lparr>sox_offset := 4\<rparr>,
                         sink := a_wav_sink\<lparr>ring_buf := \<lparr>rb_power = 0, rb_size = 8,
                                                         rb_data = [1, 0, 0, 0, 2, 0, 0, 0]\<rparr>\<rparr>,
                         frame := [1, 0, 0, 0, 2, 0, 0, 0, 3, 0, 0, 0, 4, 0, 0, 0],
                         frame_iterator := 8\<rparr>)"
  by (simp add: PipeAudio_Update_def DecodeIfFrameEmpty_def FrameFinished_def SoX_Decode_def
      BufferSampleCapacity_def BytesPerSample_def ChannelCount_def BUFFER_SIZE_def
      sample_bytes_def TransferFrame_def Transfer_def WriteCapacity_def ReadCapacity_def
      Write_def ClearFrame_def Let_def
      tiny_ring_pipe_def a_wav_pipe_def a_wav_def a_wav_sink_def)


text \<open>
  With room for one sample in the ring buffer, an update that decodes two stereo
  samples transfers the first and keeps the frame with the iterator at byte 8 of 16.
\<close>

theorem Update_keeps_frame_unfinished_witness:
  "frame_ok tiny_ring_pipe \<and> pipe_wf tiny_ring_pipe
   \<and> unat (channels (src tiny_ring_pipe)) dvd length [1, 2, 3, 4 :: 32 word]
   \<and> PipeAudio_Update [1, 2, 3, 4] tiny_ring_pipe =
       Inr (STOPPED,
            tiny_ring_pipe\<lparr>src := a_wav\<lparr>sox_offset := 4\<rparr>,
                           sink := a_wav_sink\<lparr>ring_buf := \<lparr>rb_power = 0, rb_size = 8,
                                                           rb_data = [1, 0, 0, 0, 2, 0, 0, 0]\<rparr>\<rparr>,
                           frame := [1, 0, 0, 0, 2, 0, 0, 0, 3, 0, 0, 0, 4, 0, 0, 0],
                           frame_iterator := 8\<rparr>)
   \<and> frame_ok (tiny_ring_pipe\<lparr>src := a_wav\<lparr>sox_offset := 4\<rparr>,
                           sink := a_wav_sink\<lparr>ring_buf := \<lparr>rb_power = 0, rb_size = 8,
                                                           rb_data = [1, 0, 0, 0, 2, 0, 0, 0]\<rparr>\<rparr>,
                           frame := [1, 0, 0, 0, 2, 0, 0, 0, 3, 0, 0, 0, 4, 0, 0, 0],
                           frame_iterator := 8\<rparr>)
   \<and> pipe_wf (tiny_ring_pipe\<lparr>src := a_wav\<lparr>sox_offset := 4\<rparr>,
                           sink := a_wav_sink\<lparr>ring_buf := \<lparr>rb_power = 0, rb_size = 8,
                                                           rb_data = [1, 0, 0, 0, 2, 0, 0, 0]\<rparr>\<rparr>,
                           frame := [1, 0, 0, 0, 2, 0, 0, 0, 3, 0, 0, 0, 4, 0, 0, 0],
                           frame_iterator := 8\<rparr>)
   \<and> PipeAudio_Seek \<lparr>open_ok = True, seek_ok = True\<rparr> tiny_ring_pipe 0 = Inr tiny_ring_pipe"
proof -
  let ?r = "tiny_ring_pipe\<lparr>src := a_wav\<lparr>sox_offset := 4\<rparr>,
                           sink := a_wav_sink\<lparr>ring_buf := \<lparr>rb_power = 0, rb_size = 8,
                                                           rb_data = [1, 0, 0, 0, 2, 0, 0, 0]\<rparr>\<rparr>,
                           frame := [1, 0, 0, 0, 2, 0, 0, 0, 3, 0, 0, 0, 4, 0, 0, 0],
                           frame_iterator := 8\<rparr>"
  have ok: "frame_ok tiny_ring_pipe"
    by (simp add: frame_ok_def tiny_ring_pipe_def a_wav_pipe_def)
  have wf: "pipe_wf tiny_ring_pipe"
    by (simp add: pipe_wf_def frame_ok_def BytesPerSample_def ChannelCount_def
        tiny_ring_pipe_def a_wav_pipe_def a_wav_def a_wav_sink_def)
  have dv: "unat (channels (src tiny_ring_pipe)) dvd length [1, 2, 3, 4 :: 32 word]"
    by (simp add: tiny_ring_pipe_def a_wav_pipe_def a_wav_def)
  have sk: "PipeAudio_Seek \<lparr>open_ok = True, seek_ok = True\<rparr> tiny_ring_pipe 0 = Inr tiny_ring_pipe"
    by (simp add: PipeAudio_Seek_def SoX_Seek_def SamplesFromMicros_def SampleRate_def
        ChannelCount_def SetPosition_def Flush_def ClearFrame_def
        tiny_ring_pipe_def a_wav_pipe_def a_wav_def a_wav_sink_def)
  note inst = Update_keeps_frame_unfinished
    [of a_wav a_wav_sink "\<lparr>open_ok = True, seek_ok = True\<rparr>" tiny_ring_pipe 0 tiny_ring_pipe
        "[1, 2, 3, 4]" STOPPED ?r]
  from inst ok Update_tiny_ring have r_ok: "frame_ok ?r" by blast
  from inst wf dv obtain st' q where
    "PipeAudio_Update [1, 2, 3, 4] tiny_ring_pipe = Inr (st', q)" and "pipe_wf q"
    by blast
  with Update_tiny_ring have r_wf: "pipe_wf ?r" by simp
  from ok wf dv Update_tiny_ring r_ok r_wf sk show ?thesis by blast
qed


section \<open>The player's commands\<close>

lemma gate_state_simps:
  "gate_state p [S_STOP, GEND] = (cstate p = S_STOP)"
  "gate_state p [S_PLAY, GEND] = (cstate p = S_PLAY)"
  "gate_state p [S_STOP, S_PLAY, GEND] = (cstate p = S_STOP \<or> cstate p = S_PLAY)"
  "gate_state p [S_PLAY, S_STOP, GEND] = (cstate p = S_PLAY \<or> cstate p = S_STOP)"
  by (auto simp: gate_state_def GEND_def)

lemma check_command_verbs:
  "check_command ld (''play'' # ws) p = Inr (cmd_play p)"
  "check_command ld (''stop'' # ws) p = cmd_stop p"
  "check_command ld (''ejct'' # ws) p = Inr (cmd_ejct p)"
  "check_command ld (''quit'' # ws) p = Inr (cmd_quit p)"
  "check_command ld [''load'', f] p = Inr (cmd_load ld f p)"
  "check_command ld [''seek'', f] p = Inr (cmd_load ld f p)"
  by (simp_all add: check_command_def PLAYER_CMDS_def)

lemma playing_player_reached:
  "check_command any_file [''load'', ''a.wav''] (player_new 0 0) =
     Inr (True, \<lparr>cstate = S_STOP, device = 0,
                 au = Some (some_audio\<lparr>au_playing := False\<rparr>), ptime = 0,
                 responses = [(R_STAT, ''Ejct Stop'')]\<rparr>)
   \<and> check_command any_file [''play'']
        \<lparr>cstate = S_STOP, device = 0, au = Some (some_audio\<lparr>au_playing := False\<rparr>), ptime = 0,
         responses = [(R_STAT, ''Ejct Stop'')]\<rparr> =
     Inr (True, playing_player)"
  by (simp add: check_command_verbs cmd_load_def cmd_play_def gate_state_simps set_state_def
      response_def any_file_def player_new_def playing_player_def some_audio_def audio_start_def)

text \<open>
  C1, at a player that is playing \<open>a.wav\<close> and receives \<open>seek 5s\<close>. The table calls
  \<^verbatim>\<open>cmd_load\<close> with the time string as a file name: where no such file loads the
  player ejects its audio and ends in \<open>S_EJCT\<close>, and where a file of that name loads it
  replaces the audio and the player ends in \<open>S_STOP\<close>. Neither stops, seeks and
  resumes the loaded audio, and neither leaves the player in \<open>S_PLAY\<close>.
\<close>

theorem seek_command_loads:
  "cstate playing_player = S_PLAY
   \<and> check_command no_such_file [''seek'', ''5s''] playing_player =
       Inr (True, \<lparr>cstate = S_EJCT, device = 0, au = None, ptime = 0,
                   responses = [(R_STAT, ''Ejct Stop''), (R_STAT, ''Stop Play''),
                                (R_STAT, ''Play Ejct'')]\<rparr>)
   \<and> check_command any_file [''seek'', ''5s''] playing_player =
       Inr (True, \<lparr>cstate = S_STOP, device = 0,
                   au = Some \<lparr>au_file = ''5s'', au_playing = False, au_usec = 0,
                              au_halted = False\<rparr>,
                   ptime = 0,
                   responses = [(R_STAT, ''Ejct Stop''), (R_STAT, ''Stop Play''),
                                (R_STAT, ''Play Stop'')]\<rparr>)"
  by (simp add: check_command_verbs cmd_load_def cmd_ejct_def gate_state_simps set_state_def
      response_def any_file_def no_such_file_def playing_player_def)

text \<open>
  For every loader and every playing player: after the command \<open>seek\<close> the player is
  no longer in \<open>S_PLAY\<close>, and its audio is whatever loading the time string gave.
\<close>

lemma seek_command_never_resumes:
  assumes "check_command ld [''seek'', t] p = Inr (v, p')" and "cstate p = S_PLAY"
  shows "cstate p' \<noteq> S_PLAY \<and> au p' = ld t (device p)"
  using assms
  by (auto simp: check_command_verbs cmd_load_def cmd_ejct_def gate_state_simps Let_def
      set_state_def response_def split: option.splits)

text \<open>
  \<^verbatim>\<open>cmd_seek\<close> itself, were it called, would seek the audio but leave it stopped in the
  state \<open>S_PLAY\<close>: \<^verbatim>\<open>cmd_stop\<close> does not set the state, so the gate of \<^verbatim>\<open>cmd_play\<close>
  refuses to resume.
\<close>

lemma cmd_seek_does_not_resume:
  "cmd_seek (\<lambda>s. (5, ''s'')) ''5s'' playing_player =
     Inr (True, playing_player\<lparr>au := Some (some_audio\<lparr>au_playing := False, au_usec := 5000000\<rparr>)\<rparr>)"
  by (simp add: cmd_seek_def cmd_stop_def cmd_play_def gate_state_simps audio_stop_def
      audio_seek_usec_def USECS_IN_SEC_def playing_player_def some_audio_def)

lemma cmd_stop_cstate:
  assumes "cmd_stop p = Inr (v, p')"
  shows "cstate p' = cstate p"
  using assms by (auto simp: cmd_stop_def Let_def split: if_splits option.splits)

text \<open>
  C4, at a player that is playing \<open>a.wav\<close> and receives \<open>stop\<close>: the audio is set to
  not playing, and the player's state is still \<open>S_PLAY\<close>.
\<close>

theorem stop_leaves_Play:
  "cstate playing_player = S_PLAY
   \<and> check_command any_file [''stop''] playing_player =
       Inr (True, playing_player\<lparr>au := Some (some_audio\<lparr>au_playing := False\<rparr>)\<rparr>)
   \<and> cstate (playing_player\<lparr>au := Some (some_audio\<lparr>au_playing := False\<rparr>)\<rparr>) = S_PLAY"
  by (simp add: check_command_verbs cmd_stop_def gate_state_simps audio_stop_def
      playing_player_def some_audio_def)

text \<open>
  The command \<open>seek\<close> is never refused, in any state and with any loader: the table
  calls \<^verbatim>\<open>cmd_load\<close>, which has no gate and always returns true.
\<close>

lemma seek_command_never_refused:
  "\<exists>p'. check_command ld [''seek'', t] p = Inr (True, p')
        \<and> command_ack ld [''seek'', t] p = Inr (ACK_OK, p')"
  by (auto simp: command_ack_def acknowledge_def check_command_verbs cmd_load_def
      split: option.splits)

text \<open>
  C8, at a new player, which is in \<open>S_EJCT\<close> and so outside the gate of seek, and
  receives \<open>seek 5s\<close>. The command is not refused. Where a file of that name loads,
  the handler returns true, the command is acknowledged as a success, and the player
  has moved to \<open>S_STOP\<close> with that file as its audio. Where no such file loads, the
  player is unchanged, and still the handler returns true and the command is
  acknowledged as a success, not as a user error.
\<close>

theorem seek_outside_gate_not_refused:
  "cstate (player_new 0 0) = S_EJCT
   \<and> check_command any_file [''seek'', ''5s''] (player_new 0 0) =
       Inr (True, \<lparr>cstate = S_STOP, device = 0,
                   au = Some \<lparr>au_file = ''5s'', au_playing = False, au_usec = 0,
                              au_halted = False\<rparr>,
                   ptime = 0, responses = [(R_STAT, ''Ejct Stop'')]\<rparr>)
   \<and> command_ack any_file [''seek'', ''5s''] (player_new 0 0) =
       Inr (ACK_OK, \<lparr>cstate = S_STOP, device = 0,
                     au = Some \<lparr>au_file = ''5s'', au_playing = False, au_usec = 0,
                                au_halted = False\<rparr>,
                     ptime = 0, responses = [(R_STAT, ''Ejct Stop'')]\<rparr>)
   \<and> check_command no_such_file [''seek'', ''5s''] (player_new 0 0) =
       Inr (True, player_new 0 0)
   \<and> command_ack no_such_file [''seek'', ''5s''] (player_new 0 0) =
       Inr (ACK_OK, player_new 0 0)"
  by (simp add: command_ack_def acknowledge_def check_command_verbs cmd_load_def cmd_ejct_def
      gate_state_simps set_state_def response_def any_file_def no_such_file_def
      player_new_def)

text \<open>
  The gates that are reached do refuse without a change. When its gate refuses, a
  handler returns false and the player as it was: state, audio, position and the log of
  responses. This holds for \<^verbatim>\<open>cmd_play\<close> outside \<open>S_STOP\<close> (and without an audio),
  \<^verbatim>\<open>cmd_stop\<close> outside \<open>S_PLAY\<close> and \<^verbatim>\<open>cmd_ejct\<close> outside \<open>S_STOP\<close> and \<open>S_PLAY\<close>,
  also through the command table, where the refusal is acknowledged as a user error; and
  for \<^verbatim>\<open>cmd_seek\<close> outside \<open>S_PLAY\<close> and \<open>S_STOP\<close>, which the table never calls.
\<close>

lemma refused_commands_change_nothing:
  "(cstate p \<noteq> S_STOP \<or> au p = None \<longrightarrow>
      cmd_play p = (False, p) \<and> check_command ld (''play'' # ws) p = Inr (False, p)
      \<and> command_ack ld (''play'' # ws) p = Inr (ACK_WHAT, p))
   \<and> (cstate p \<noteq> S_PLAY \<longrightarrow>
        cmd_stop p = Inr (False, p) \<and> check_command ld (''stop'' # ws) p = Inr (False, p)
        \<and> command_ack ld (''stop'' # ws) p = Inr (ACK_WHAT, p))
   \<and> (cstate p \<noteq> S_STOP \<and> cstate p \<noteq> S_PLAY \<longrightarrow>
        cmd_ejct p = (False, p) \<and> check_command ld (''ejct'' # ws) p = Inr (False, p)
        \<and> command_ack ld (''ejct'' # ws) p = Inr (ACK_WHAT, p))
   \<and> (cstate p \<noteq> S_PLAY \<and> cstate p \<noteq> S_STOP \<longrightarrow>
        cmd_seek extract time_str p = Inr (False, p))"
proof (intro conjI impI)
  assume a: "cstate p \<noteq> S_STOP \<or> au p = None"
  then show "cmd_play p = (False, p)" by (auto simp: cmd_play_def gate_state_simps)
  then show c: "check_command ld (''play'' # ws) p = Inr (False, p)"
    by (simp add: check_command_verbs)
  then show "command_ack ld (''play'' # ws) p = Inr (ACK_WHAT, p)"
    by (simp add: command_ack_def acknowledge_def)
next
  assume a: "cstate p \<noteq> S_PLAY"
  then show "cmd_stop p = Inr (False, p)" by (simp add: cmd_stop_def gate_state_simps)
  then show c: "check_command ld (''stop'' # ws) p = Inr (False, p)"
    by (simp add: check_command_verbs)
  then show "command_ack ld (''stop'' # ws) p = Inr (ACK_WHAT, p)"
    by (simp add: command_ack_def acknowledge_def)
next
  assume a: "cstate p \<noteq> S_STOP \<and> cstate p \<noteq> S_PLAY"
  then show "cmd_ejct p = (False, p)" by (simp add: cmd_ejct_def gate_state_simps)
  then show c: "check_command ld (''ejct'' # ws) p = Inr (False, p)"
    by (simp add: check_command_verbs)
  then show "command_ack ld (''ejct'' # ws) p = Inr (ACK_WHAT, p)"
    by (simp add: command_ack_def acknowledge_def)
next
  assume a: "cstate p \<noteq> S_PLAY \<and> cstate p \<noteq> S_STOP"
  then show "cmd_seek extract time_str p = Inr (False, p)"
    by (simp add: cmd_seek_def gate_state_simps split: prod.splits)
qed

text \<open>A new player is in \<open>S_EJCT\<close>, where all four gates refuse.\<close>

lemma refused_commands_new_player:
  "cstate (player_new 0 0) \<noteq> S_STOP \<and> cstate (player_new 0 0) \<noteq> S_PLAY
   \<and> command_ack any_file [''play''] (player_new 0 0) = Inr (ACK_WHAT, player_new 0 0)
   \<and> command_ack any_file [''stop''] (player_new 0 0) = Inr (ACK_WHAT, player_new 0 0)
   \<and> command_ack any_file [''ejct''] (player_new 0 0) = Inr (ACK_WHAT, player_new 0 0)
   \<and> cmd_seek (\<lambda>s. (5, ''s'')) ''5s'' (player_new 0 0) = Inr (False, player_new 0 0)"
proof -
  have h: "cstate (player_new 0 0) \<noteq> S_STOP" "cstate (player_new 0 0) \<noteq> S_PLAY"
    by (simp_all add: player_new_def)
  with refused_commands_change_nothing
    [of "player_new 0 0" any_file "[]" "\<lambda>s. (5, ''s'')" "''5s''"]
  show ?thesis by simp
qed


section \<open>C10: an audio in the states Stop and Play\<close>

lemma set_state_fields [simp]:
  "cstate (set_state s p) = s" "au (set_state s p) = au p"
  by (simp_all add: set_state_def response_def)

lemma cmd_ejct_loaded:
  assumes "audio_loaded p"
  shows "audio_loaded (snd (cmd_ejct p))"
  using assms by (auto simp: cmd_ejct_def audio_loaded_def gate_state_simps Let_def)

lemma cmd_load_loaded:
  assumes "audio_loaded p"
  shows "audio_loaded (snd (cmd_load ld f p))"
proof (cases "ld f (device p)")
  case None
  with assms show ?thesis by (simp add: cmd_load_def cmd_ejct_loaded)
next
  case (Some a)
  then show ?thesis by (simp add: cmd_load_def audio_loaded_def)
qed

lemma cmd_play_loaded:
  assumes "audio_loaded p"
  shows "audio_loaded (snd (cmd_play p))"
  using assms by (auto simp: cmd_play_def audio_loaded_def gate_state_simps Let_def)

lemma cmd_quit_loaded: "audio_loaded (snd (cmd_quit p))"
  by (simp add: cmd_quit_def audio_loaded_def)

lemma cmd_stop_loaded:
  assumes "audio_loaded p"
  shows "\<exists>v p'. cmd_stop p = Inr (v, p') \<and> audio_loaded p' \<and> cstate p' = cstate p"
  using assms by (auto simp: cmd_stop_def audio_loaded_def gate_state_simps Let_def)

lemma cmd_seek_loaded:
  assumes "audio_loaded p"
  shows "\<exists>v p'. cmd_seek extract t p = Inr (v, p') \<and> audio_loaded p'"
proof -
  obtain time0 rest where e: "extract t = (time0, rest)" by (cases "extract t")
  show ?thesis
  proof (cases "cstate p = S_PLAY \<or> cstate p = S_STOP")
    case False
    then have "cmd_seek extract t p = Inr (False, p)"
      by (simp add: cmd_seek_def gate_state_simps e Let_def)
    with assms show ?thesis by blast
  next
    case True
    from cmd_stop_loaded [OF assms] obtain v p1 where
      s: "cmd_stop p = Inr (v, p1)" and l1: "audio_loaded p1" and c1: "cstate p1 = cstate p"
      by blast
    from True l1 c1 obtain a where a: "au p1 = Some a" by (auto simp: audio_loaded_def)
    define p2 where "p2 = p1\<lparr>au := Some (audio_seek_usec a
        (if rest = ''s'' \<or> rest = ''sec'' then time0 * USECS_IN_SEC else time0))\<rparr>"
    have l2: "audio_loaded p2" by (simp add: p2_def audio_loaded_def)
    then have "audio_loaded (snd (cmd_play p2))" by (rule cmd_play_loaded)
    with True s a l2 show ?thesis
      by (auto simp: cmd_seek_def gate_state_simps e Let_def p2_def)
  qed
qed

lemma loop_iter_loaded:
  assumes "audio_loaded p"
  shows "\<exists>p'. loop_iter dcd p = Inr p' \<and> audio_loaded p'"
proof (cases "cstate p = S_PLAY")
  case False
  with assms show ?thesis by (auto simp: loop_iter_def audio_loaded_def Let_def)
next
  case True
  with assms obtain a where a: "au p = Some a" by (auto simp: audio_loaded_def)
  show ?thesis
  proof (cases "au_halted a")
    case h: True
    have "cmd_ejct p = (True, (set_state S_EJCT (p\<lparr>au := None\<rparr>))\<lparr>ptime := 0\<rparr>)"
      using True by (simp add: cmd_ejct_def gate_state_simps Let_def)
    with True a h show ?thesis by (simp add: loop_iter_def audio_loaded_def)
  next
    case h: False
    with True a show ?thesis
      by (simp add: loop_iter_def audio_loaded_def Let_def response_def)
  qed
qed

lemma check_command_loaded:
  assumes "audio_loaded p"
  shows "check_command ld ws p \<noteq> Inl NullDereference
         \<and> (check_command ld ws p = Inr (v, p') \<longrightarrow> audio_loaded p')"
proof (cases ws)
  case Nil
  with assms show ?thesis by (auto simp: check_command_def)
next
  case (Cons verb rest)
  consider (play) "verb = ''play''" | (stop) "verb = ''stop''" | (ejct) "verb = ''ejct''"
    | (quit) "verb = ''quit''" | (load) "verb = ''load''" | (seek) "verb = ''seek''"
    | (other) "verb \<noteq> ''play''" "verb \<noteq> ''stop''" "verb \<noteq> ''ejct''"
        "verb \<noteq> ''quit''" "verb \<noteq> ''load''" "verb \<noteq> ''seek''"
    by blast
  then show ?thesis
  proof cases
    case play
    with cmd_play_loaded [OF assms] show ?thesis
      by (auto simp: Cons check_command_verbs)
  next
    case stop
    with cmd_stop_loaded [OF assms] show ?thesis
      by (auto simp: Cons check_command_verbs)
  next
    case ejct
    with cmd_ejct_loaded [OF assms] show ?thesis
      by (auto simp: Cons check_command_verbs)
  next
    case quit
    with cmd_quit_loaded [of p] show ?thesis
      by (auto simp: Cons check_command_verbs)
  next
    case load
    have "check_command ld ws p =
            (if length ws \<le> 1 then Inl OutOfRange else Inr (cmd_load ld (ws ! 1) p))"
      by (simp add: Cons load check_command_def PLAYER_CMDS_def)
    with cmd_load_loaded [OF assms, of ld "ws ! 1"] show ?thesis
      by (auto split: if_splits)
  next
    case seek
    have "check_command ld ws p =
            (if length ws \<le> 1 then Inl OutOfRange else Inr (cmd_load ld (ws ! 1) p))"
      by (simp add: Cons seek check_command_def PLAYER_CMDS_def)
    with cmd_load_loaded [OF assms, of ld "ws ! 1"] show ?thesis
      by (auto split: if_splits)
  next
    case other
    then have "check_command ld ws p = Inr (False, p)"
      by (simp add: Cons check_command_def PLAYER_CMDS_def)
    with assms show ?thesis by auto
  qed
qed

text \<open>
  C10. A new player satisfies \<open>audio_loaded\<close>: in \<open>S_STOP\<close> and \<open>S_PLAY\<close> its audio
  is not null. From a player that satisfies it, each of \<^verbatim>\<open>cmd_load\<close>, \<^verbatim>\<open>cmd_ejct\<close>,
  \<^verbatim>\<open>cmd_play\<close> and \<^verbatim>\<open>cmd_quit\<close> gives a player that satisfies it; \<^verbatim>\<open>cmd_stop\<close>,
  \<^verbatim>\<open>cmd_seek\<close> and \<^verbatim>\<open>loop_iter\<close>, which dereference the audio unchecked, return
  normally and give such a player; and no command line run through the table
  dereferences a null pointer, and each that returns gives such a player.
\<close>

theorem audio_loaded_invariant:
  "audio_loaded (player_new dev ptime0)
   \<and> (audio_loaded p \<longrightarrow>
        audio_loaded (snd (cmd_load ld f p))
        \<and> audio_loaded (snd (cmd_ejct p))
        \<and> audio_loaded (snd (cmd_play p))
        \<and> audio_loaded (snd (cmd_quit p))
        \<and> (\<exists>v p'. cmd_stop p = Inr (v, p') \<and> audio_loaded p')
        \<and> (\<exists>v p'. cmd_seek extract t p = Inr (v, p') \<and> audio_loaded p')
        \<and> (\<exists>p'. loop_iter dcd p = Inr p' \<and> audio_loaded p')
        \<and> check_command ld ws p \<noteq> Inl NullDereference
        \<and> (check_command ld ws p = Inr (v, p'') \<longrightarrow> audio_loaded p''))"
proof (intro conjI impI)
  show "audio_loaded (player_new dev ptime0)"
    by (simp add: audio_loaded_def player_new_def)
next
  assume a: "audio_loaded p"
  show "audio_loaded (snd (cmd_load ld f p))" using a by (rule cmd_load_loaded)
  show "audio_loaded (snd (cmd_ejct p))" using a by (rule cmd_ejct_loaded)
  show "audio_loaded (snd (cmd_play p))" using a by (rule cmd_play_loaded)
  show "audio_loaded (snd (cmd_quit p))" by (rule cmd_quit_loaded)
  show "\<exists>v p'. cmd_stop p = Inr (v, p') \<and> audio_loaded p'"
    using cmd_stop_loaded [OF a] by blast
  show "\<exists>v p'. cmd_seek extract t p = Inr (v, p') \<and> audio_loaded p'"
    using a by (rule cmd_seek_loaded)
  show "\<exists>p'. loop_iter dcd p = Inr p' \<and> audio_loaded p'"
    using a by (rule loop_iter_loaded)
  show "check_command ld ws p \<noteq> Inl NullDereference"
    using check_command_loaded [OF a] by blast
  show "audio_loaded p''" if "check_command ld ws p = Inr (v, p'')"
    using check_command_loaded [OF a, of ld ws v p''] that by blast
qed

text \<open>
  At the playing player: \<^verbatim>\<open>cmd_stop\<close> dereferences its audio and returns, and
  \<^verbatim>\<open>cmd_ejct\<close> leaves it in \<open>S_EJCT\<close> with no audio.
\<close>

theorem audio_loaded_invariant_witness:
  "audio_loaded playing_player
   \<and> cmd_stop playing_player =
       Inr (True, playing_player\<lparr>au := Some (some_audio\<lparr>au_playing := False\<rparr>)\<rparr>)
   \<and> audio_loaded (playing_player\<lparr>au := Some (some_audio\<lparr>au_playing := False\<rparr>)\<rparr>)
   \<and> audio_loaded (snd (cmd_ejct playing_player))
   \<and> cstate (snd (cmd_ejct playing_player)) = S_EJCT
   \<and> au (snd (cmd_ejct playing_player)) = None"
proof -
  have l: "audio_loaded playing_player"
    by (simp add: audio_loaded_def playing_player_def)
  have s: "cmd_stop playing_player =
       Inr (True, playing_player\<lparr>au := Some (some_audio\<lparr>au_playing := False\<rparr>)\<rparr>)"
    by (simp add: cmd_stop_def gate_state_simps audio_stop_def playing_player_def some_audio_def)
  have e: "cstate (snd (cmd_ejct playing_player)) = S_EJCT \<and> au (snd (cmd_ejct playing_player)) = None"
    by (simp add: cmd_ejct_def gate_state_simps playing_player_def Let_def)
  from audio_loaded_invariant
    [of 0 0 playing_player any_file "''a.wav''" "\<lambda>s. (5, ''s'')" "''5s''" id "[''stop'']" True
        "playing_player\<lparr>au := Some (some_audio\<lparr>au_playing := False\<rparr>)\<rparr>"]
    l s e
  show ?thesis by (simp add: check_command_verbs)
qed

end
